theory Spec2Isabelle
  imports Main
begin

section \<open>Python values shared by both modules\<close>

text \<open>
  Exceptions of the two source files as values. \<open>KeyboardInterrupt\<close> and \<open>SystemExit\<close>
  derive from \<open>BaseException\<close> only, so an \<open>except Exception\<close> clause lets them pass.
\<close>

datatype exn =
    ProcessLookupError string
  | PermissionError
  | TypeError string
  | NameError string
  | KeyError string
  | ValueError string
  | AttributeError string
  | ArgumentError string
  | OSError string
  | SMTPAuthenticationError
  | SMTPException string
  | SMTPResponseException int
  | NoSuchProcess int
  | KeyboardInterrupt
  | SystemExit int

fun is_Exception :: "exn \<Rightarrow> bool" where
  "is_Exception KeyboardInterrupt = False"
| "is_Exception (SystemExit _) = False"
| "is_Exception _ = True"

text \<open>
  The status the interpreter hands to the shell when the script ends: 0 on a normal
  return, the argument of \<open>exit\<close> for \<open>SystemExit\<close>, and 1 after the traceback of any
  other uncaught exception.
\<close>

fun exit_status :: "exn + 'a \<Rightarrow> int" where
  "exit_status (Inr _) = 0"
| "exit_status (Inl (SystemExit n)) = n"
| "exit_status (Inl _) = 1"

subsection \<open>String helpers of the Python runtime\<close>

text \<open>\<open>sep.join(xs)\<close>.\<close>

fun join :: "string \<Rightarrow> string list \<Rightarrow> string" where
  "join sep [] = []"
| "join sep [x] = x"
| "join sep (x # y # ys) = x @ sep @ join sep (y # ys)"

text \<open>\<open>s.split(c)\<close> for a one-character separator: always at least one field.\<close>

fun split_chr :: "char \<Rightarrow> string \<Rightarrow> string list" where
  "split_chr c [] = [[]]"
| "split_chr c (x # xs) =
     (if x = c then [] # split_chr c xs
      else (case split_chr c xs of [] \<Rightarrow> [[x]] | y # ys \<Rightarrow> (x # y) # ys))"

text \<open>\<open>s.split(c, 1)\<close>: cut at the first separator only; one field when there is none.\<close>

definition split1 :: "char \<Rightarrow> string \<Rightarrow> string list" where
  "split1 c s =
     (if c \<in> set s then [takeWhile (\<lambda>x. x \<noteq> c) s, tl (dropWhile (\<lambda>x. x \<noteq> c) s)] else [s])"

text \<open>\<open>os.path.basename\<close>: what follows the last slash.\<close>

definition basename :: "string \<Rightarrow> string" where
  "basename p = rev (takeWhile (\<lambda>x. x \<noteq> CHR ''/'') (rev p))"

text \<open>\<open>str(n)\<close> for an integer.\<close>

definition digit_char :: "nat \<Rightarrow> char" where
  "digit_char d =
     (if d = 0 then CHR ''0'' else if d = 1 then CHR ''1'' else if d = 2 then CHR ''2''
      else if d = 3 then CHR ''3'' else if d = 4 then CHR ''4'' else if d = 5 then CHR ''5''
      else if d = 6 then CHR ''6'' else if d = 7 then CHR ''7'' else if d = 8 then CHR ''8''
      else CHR ''9'')"

fun str_nat :: "nat \<Rightarrow> string" where
  "str_nat n = (if n < 10 then [digit_char n] else str_nat (n div 10) @ [digit_char (n mod 10)])"

definition str_int :: "int \<Rightarrow> string" where
  "str_int i = (if i < 0 then CHR ''-'' # str_nat (nat (- i)) else str_nat (nat i))"

definition newline :: char where
  "newline = CHR 0x0A"

datatype level = DEBUG | INFO | WARNING | ERROR

text \<open>\<open>ConfigParser\<close>: sections in file order, each an ordered list of key/value pairs.
  The special section \<open>DEFAULT\<close> and the interpolation of values are left out.\<close>

type_synonym sect = "(string \<times> string) list"
type_synonym config = "(string \<times> sect) list"

definition getitem2 :: "config \<Rightarrow> string \<Rightarrow> string \<Rightarrow> exn + string" where
  "getitem2 c s k =
     (case map_of c s of
        None \<Rightarrow> Inl (KeyError s)
      | Some kvs \<Rightarrow> (case map_of kvs k of None \<Rightarrow> Inl (KeyError k) | Some v \<Rightarrow> Inr v))"

text \<open>The parsed command line of the \<open>notify\<close> subcommand (\<open>argparse.Namespace\<close>).
  \<open>--attach\<close> is declared with \<open>type=str\<close> and no \<open>nargs\<close>: one string.
  \<open>--to\<close> has \<open>nargs="*"\<close>: a list. \<open>--destlist\<close> is an open file, here its content.\<close>

record args =
  pid :: int
  attachments :: "string option"
  to :: "string list option"
  destlist :: "string option"

record attachment =
  content :: string
  maintype :: string
  subtype :: string
  filename :: string

record email =
  Subject :: string
  From :: string
  To :: string
  body :: string
  parts :: "attachment list"

text \<open>What a call of \<open>_send_mail\<close> receives as its first argument: the auth loop of
  \<open>notify\<close> hands it the namespace, the watcher branch a built message.\<close>

datatype payload = Namespace | Message email

text \<open>
  What the program does that can be observed from outside: log lines, printed lines,
  the lookup of \<open>E_NOTIFY_PASS\<close> with its result, a prompt with what was typed, the
  opening of an SMTP session (test-only or not, and the password used), and a message
  handed over to the server.
\<close>

datatype event =
    Log level string
  | Printed string
  | GetEnv "string option"
  | GetPass string
  | Session bool string
  | MailSent email

section \<open>The world outside the program\<close>

text \<open>
  The three answers of \<open>os.kill(pid, 0)\<close>: it returns (the target exists and may be
  signalled), it raises \<open>ProcessLookupError\<close> (no such process), or it raises
  \<open>PermissionError\<close> (the target exists but the caller may not signal it).
\<close>

datatype kill_result = Signalled | ESRCH | EPERM

text \<open>
  How one SMTP session goes: for each call made on the connection, the exception it
  raises, if any. \<open>quit_exn\<close> is what \<open>SMTP.__exit__\<close> raises when the \<open>with\<close> block is
  left: it sends \<open>QUIT\<close> and raises \<open>SMTPResponseException\<close> unless the reply is 221; a
  dropped connection is swallowed there and counts as no exception.
\<close>

record session =
  connect_exn :: "exn option"
  ehlo1_exn :: "exn option"
  starttls_exn :: "exn option"
  ehlo2_exn :: "exn option"
  login_exn :: "exn option"
  send_exn :: "exn option"
  quit_exn :: "exn option"

record 't procinfo =
  pname :: string
  create_time :: 't
  cmdline :: "string list"

datatype fork_result = Child | Parent int

text \<open>
  Everything the program reads from outside, as oracles: the answer of \<open>os.kill(pid, 0)\<close>,
  the environment variable, what the user types at the n-th prompt, how the n-th SMTP
  session behaves, which side of \<open>os.fork\<close> runs, the process table at each polling
  instant (instant 0 is watch start), the rendering of a timestamp, and the file system
  as seen by \<open>glob.iglob\<close>, \<open>os.path.isfile\<close>, \<open>open(..).read()\<close> and
  \<open>mimetypes.guess_type\<close>.

  Two more concern the creation time. The program never calls \<open>create_time()\<close>; it reads
  the private attribute \<open>_create_time\<close> of the \<open>psutil.Process\<close> object. Whether the
  constructor has stored the creation time there depends on the psutil release in use
  (5.x does; 7.x on Linux leaves it \<open>None\<close>), and no release is pinned:
  \<open>init_caches_create_time\<close> says which. \<open>now n\<close> is what the n-th reading of the clock
  by \<open>time.localtime(None)\<close> returns.
\<close>

record 't env =
  os_kill :: "int \<Rightarrow> kill_result"
  environ_pass :: "string option"
  getpass_in :: "nat \<Rightarrow> string"
  smtp :: "nat \<Rightarrow> session"
  fork :: fork_result
  ptable :: "nat \<Rightarrow> int \<Rightarrow> 't procinfo option"
  init_caches_create_time :: bool
  now :: "nat \<Rightarrow> 't"
  strftime :: "'t \<Rightarrow> string"
  iglob :: "string \<Rightarrow> string list"
  isfile :: "string \<Rightarrow> bool"
  read_bytes :: "string \<Rightarrow> string option"
  guess_type :: "string \<Rightarrow> string option \<times> string option"

text \<open>
  The mutable state: \<open>conf\<close> is the parser object of \<open>e_notify.py\<close>, \<open>conf_ini\<close> the file
  on disk, \<open>notify_conf\<close> the module global \<open>conf\<close> of \<open>src/notify.py\<close> (\<open>None\<close> while
  unbound), then the number of prompts, SMTP sessions and clock readings made so far,
  and the trace of observable events.
\<close>

record world =
  conf :: config
  conf_ini :: config
  notify_conf :: "config option"
  prompts :: nat
  sessions :: nat
  clock_reads :: nat
  trace :: "event list"

definition emit :: "event \<Rightarrow> world \<Rightarrow> world" where
  "emit ev w = w\<lparr>trace := trace w @ [ev]\<rparr>"

definition initial_world :: "config \<Rightarrow> world" where
  "initial_world store =
     \<lparr>conf = [], conf_ini = store, notify_conf = None, prompts = 0, sessions = 0,
      clock_reads = 0, trace = []\<rparr>"

section \<open>e\_notify.py\<close>

subsection \<open>config\_target\<close>

text \<open>
  The inner loop over the keys of one section. \<open>flags k\<close> is \<open>getattr(args, k)\<close>.
  A supplied flag overwrites the value in memory; the next statement reads
  \<open>args.logger\<close>, an attribute the namespace does not have, so the loop ends there with
  \<open>AttributeError\<close>. The result is the exception, if any, and the section as it stands.
\<close>

fun config_keys :: "(string \<rightharpoonup> string) \<Rightarrow> sect \<Rightarrow> exn option \<times> sect" where
  "config_keys flags [] = (None, [])"
| "config_keys flags ((k, old) # kvs) =
     (case flags k of
        None \<Rightarrow> (case config_keys flags kvs of (r, kvs') \<Rightarrow> (r, (k, old) # kvs'))
      | Some v \<Rightarrow> (Some (AttributeError ''logger''), (k, v) # kvs))"

fun config_sections :: "(string \<rightharpoonup> string) \<Rightarrow> config \<Rightarrow> exn option \<times> config" where
  "config_sections flags [] = (None, [])"
| "config_sections flags ((s, kvs) # rest) =
     (case config_keys flags kvs of
        (Some x, kvs') \<Rightarrow> (Some x, (s, kvs') # rest)
      | (None, kvs') \<Rightarrow>
          (case config_sections flags rest of (r, rest') \<Rightarrow> (r, (s, kvs') # rest')))"

text \<open>Only after both loops is \<open>conf.ini\<close> opened for writing and the parser dumped.\<close>

definition config_target :: "(string \<rightharpoonup> string) \<Rightarrow> world \<Rightarrow> (exn + unit) \<times> world" where
  "config_target flags w =
     (case config_sections flags (conf w) of
        (Some x, c) \<Rightarrow> (Inl x, w\<lparr>conf := c\<rparr>)
      | (None, c) \<Rightarrow> (Inr (), w\<lparr>conf := c, conf_ini := c\<rparr>))"

subsection \<open>notify\_target\<close>

text \<open>
  Line 5 binds the name \<open>notify\<close> to the module \<open>src.notify\<close>, not to the function of
  that name inside it. Calling a module object raises \<open>TypeError\<close>.
\<close>

datatype 'f binding = ModuleObject string | FunctionObject 'f

definition e_notify_notify :: "(args \<Rightarrow> world \<Rightarrow> (exn + unit) \<times> world) binding" where
  "e_notify_notify = ModuleObject ''src.notify''"

definition py_call ::
  "(args \<Rightarrow> world \<Rightarrow> (exn + unit) \<times> world) binding \<Rightarrow> args \<Rightarrow> world \<Rightarrow> (exn + unit) \<times> world"
where
  "py_call b a w =
     (case b of
        ModuleObject _ \<Rightarrow> (Inl (TypeError ''module object is not callable''), w)
      | FunctionObject f \<Rightarrow> f a w)"

definition notify_target :: "'t env \<Rightarrow> args \<Rightarrow> world \<Rightarrow> (exn + unit) \<times> world" where
  "notify_target e a w =
     (case os_kill e (pid a) of
        ESRCH \<Rightarrow> (Inl (ProcessLookupError (''The Process with PID : '' @ str_int (pid a) @ '' does not exist'')), w)
      | EPERM \<Rightarrow> (Inl PermissionError, w)
      | Signalled \<Rightarrow> py_call e_notify_notify a w)"

subsection \<open>The script body\<close>

datatype command = Config "string \<rightharpoonup> string" | Notify args | NoCommand

definition option_keys :: "config \<Rightarrow> string list" where
  "option_keys c = concat (map (\<lambda>(s, kvs). map fst kvs) c)"

text \<open>
  \<open>conf.read\<close> loads the file, one \<open>--key\<close> option is registered per key of every section
  (registering the same option string twice is an \<open>argparse\<close> error), and the function
  of the chosen subcommand runs; without a subcommand the help text is printed.
\<close>

definition main :: "'t env \<Rightarrow> command \<Rightarrow> world \<Rightarrow> (exn + unit) \<times> world" where
  "main e cmd w0 =
     (let w = w0\<lparr>conf := conf_ini w0\<rparr> in
      if \<not> distinct (option_keys (conf w)) then (Inl (ArgumentError ''conflicting option string''), w)
      else case cmd of
          Config flags \<Rightarrow> config_target flags w
        | Notify a \<Rightarrow> notify_target e a w
        | NoCommand \<Rightarrow> (Inr (), emit (Printed ''help'') w))"

section \<open>src/notify.py\<close>

datatype ReturnValue = Success | LoginError | OtherError

subsection \<open>\_format\_mail\<close>

text \<open>
  Lines 41 to 52: the string assigned to the \<open>To\<close> header. The fallback reads the module
  global \<open>conf\<close> while it formats the log line, before anything is logged.
\<close>

definition resolve_to :: "args \<Rightarrow> world \<Rightarrow> (exn + string) \<times> world" where
  "resolve_to a w =
     (case to a of
        Some addrs \<Rightarrow> (Inr (join '', '' addrs), w)
      | None \<Rightarrow>
          (case destlist a of
             Some text \<Rightarrow> (Inr (join '', '' (split_chr newline text)), w)
           | None \<Rightarrow>
               (case notify_conf w of
                  None \<Rightarrow> (Inl (NameError ''conf''), w)
                | Some cf \<Rightarrow>
                    (case getitem2 cf ''defaults'' ''receiver'' of
                       Inl x \<Rightarrow> (Inl x, w)
                     | Inr r \<Rightarrow>
                         (Inr r, emit (Log INFO (''E-mail header To was not fed to cmd, defaulting to '' @ r)) w)))))"

text \<open>
  Lines 69 to 78: the type of one attachment. \<open>maintype, subtype = ctype.split("/", 1)\<close>
  unpacks exactly two fields and raises \<open>ValueError\<close> on any other number.
\<close>

definition resolve_mime :: "'t env \<Rightarrow> string \<Rightarrow> world \<Rightarrow> (exn + string \<times> string) \<times> world" where
  "resolve_mime e f w =
     (let (ctype, w1) =
        (case guess_type e f of
           (Some ct, None) \<Rightarrow> (ct, w)
         | _ \<Rightarrow> (''application/octet-stream'',
                 emit (Log INFO (''The MIME type for the file could not be guessed: '' @ f)) w))
      in case split1 CHR ''/'' ctype of
           [mt, st] \<Rightarrow> (Inr (mt, st), w1)
         | _ \<Rightarrow> (Inl (ValueError ''not enough values to unpack''), w1))"

text \<open>The inner loop, lines 60 to 86, over the paths one pattern expands to. The log
  lines carry the path; the capitalisation applied to it in the warning is left out.\<close>

fun attach_files :: "'t env \<Rightarrow> string list \<Rightarrow> email \<Rightarrow> world \<Rightarrow> (exn + email) \<times> world" where
  "attach_files e [] m w = (Inr m, w)"
| "attach_files e (f # fs) m w =
     (if \<not> isfile e f then
        attach_files e fs m (emit (Log WARNING (f @ '' does not exist or is not a file, skipping it'')) w)
      else
        (case resolve_mime e f w of
           (Inl x, w1) \<Rightarrow> (Inl x, w1)
         | (Inr (mt, st), w1) \<Rightarrow>
             (case read_bytes e f of
                None \<Rightarrow> (Inl (OSError f), w1)
              | Some data \<Rightarrow>
                  attach_files e fs
                    (m\<lparr>parts := parts m @
                        [\<lparr>content = data, maintype = mt, subtype = st, filename = basename f\<rparr>]\<rparr>)
                    (emit (Log DEBUG (''Successfully attached the file '' @ f)) w1))))"

text \<open>The outer loop, line 58, over whatever iterating \<open>args.attachments\<close> yields.\<close>

fun attach_paths :: "'t env \<Rightarrow> string list \<Rightarrow> email \<Rightarrow> world \<Rightarrow> (exn + email) \<times> world" where
  "attach_paths e [] m w = (Inr m, w)"
| "attach_paths e (attach_path # rest) m w =
     (case attach_files e (iglob e attach_path) m w of
        (Inl x, w1) \<Rightarrow> (Inl x, w1)
      | (Inr m1, w1) \<Rightarrow> attach_paths e rest m1 w1)"

text \<open>Iterating a Python \<open>str\<close> yields its characters, each a string of length one.\<close>

definition iter_str :: "string \<Rightarrow> string list" where
  "iter_str s = map (\<lambda>ch. [ch]) s"

definition format_mail ::
  "'t env \<Rightarrow> args \<Rightarrow> string \<Rightarrow> string \<Rightarrow> string \<Rightarrow> world \<Rightarrow> (exn + email) \<times> world"
where
  "format_mail e a sender subject text w0 =
     (let w = emit (Log DEBUG (''Changed the email header From to '' @ sender)) w0 in
      case resolve_to a w of
        (Inl x, w1) \<Rightarrow> (Inl x, w1)
      | (Inr rcpt, w1) \<Rightarrow>
          (let m = \<lparr>Subject = subject, From = sender, To = rcpt, body = text, parts = []\<rparr>;
               w2 = emit (Log DEBUG (''Changed the email header To to '' @ rcpt)) w1
           in case attachments a of
                None \<Rightarrow> (Inr m, w2)
              | Some s \<Rightarrow> attach_paths e (iter_str s) m w2))"

subsection \<open>\_send\_mail\<close>

text \<open>
  The body of the \<open>with\<close> block, lines 98 to 121. Only \<open>server.login\<close> stands inside the
  \<open>try\<close>; both \<open>ehlo\<close> calls, \<open>starttls\<close> and \<open>send_message\<close> stand outside it.
\<close>

definition session_body ::
  "session \<Rightarrow> payload \<Rightarrow> bool \<Rightarrow> world \<Rightarrow> (exn + ReturnValue) \<times> world"
where
  "session_body s mail test_login w =
     (let w1 = emit (Log DEBUG ''Initiating ehlo for the tls handshake'') w
      in case ehlo1_exn s of Some x \<Rightarrow> (Inl x, w1) | None \<Rightarrow>
         (case starttls_exn s of Some x \<Rightarrow> (Inl x, w1) | None \<Rightarrow>
         (case ehlo2_exn s of Some x \<Rightarrow> (Inl x, w1) | None \<Rightarrow>
         (let w2 = emit (Log DEBUG ''Ended ehlo for the tls handshake'') w1
          in case login_exn s of
               Some x \<Rightarrow>
                 if x = SMTPAuthenticationError then
                   (Inr LoginError, emit (Log ERROR ''Error during the login process'') w2)
                 else if is_Exception x then
                   (Inr OtherError, emit (Log ERROR ''An unexpected error occured'') w2)
                 else (Inl x, w2)
             | None \<Rightarrow>
                 if \<not> test_login then
                   (let w3 = emit (Log INFO ''Sending the mail'') w2
                    in case mail of
                         Namespace \<Rightarrow> (Inl (AttributeError ''get_all''), w3)
                       | Message m \<Rightarrow>
                           (case send_exn s of
                              Some x \<Rightarrow> (Inl x, w3)
                            | None \<Rightarrow> (Inr Success, emit (MailSent m) w3)))
                 else (Inr Success, w2)))))"

text \<open>
  One SMTP session, line 96 to the end of the \<open>with\<close> block. An exception of the
  constructor leaves the function before the block is entered. Otherwise the block is
  left through \<open>__exit__\<close>, whether by \<open>return\<close> or by an exception, and an exception
  raised there replaces the value or the exception the block ended with.
\<close>

definition send_mail ::
  "'t env \<Rightarrow> payload \<Rightarrow> string \<Rightarrow> bool \<Rightarrow> world \<Rightarrow> (exn + ReturnValue) \<times> world"
where
  "send_mail e mail password test_login w0 =
     (let s = smtp e (sessions w0);
          w = emit (Session test_login password) (w0\<lparr>sessions := Suc (sessions w0)\<rparr>)
      in case connect_exn s of
           Some x \<Rightarrow> (Inl x, w)
         | None \<Rightarrow>
             (case session_body s mail test_login w of
                (r, w1) \<Rightarrow> (case quit_exn s of Some q \<Rightarrow> (Inl q, w1) | None \<Rightarrow> (r, w1))))"

subsection \<open>\_wait\_process\<close>

text \<open>
  A \<open>psutil.Process\<close> object after lines 125 to 133, with the three attributes the mail
  is later built from: \<open>name()\<close> has stored \<open>_name\<close>, \<open>_cmdline\<close> has been set to the
  joined command line, and \<open>_create_time\<close> is whatever the constructor left there, since
  \<open>create_time()\<close> is not called.
\<close>

record 't process =
  proc_pid :: int
  proc_name :: string
  proc_create_time :: "'t option"
  proc_cmdline :: string

text \<open>\<open>psutil.wait_procs(alive, timeout=1)\<close> ending at instant \<open>t\<close>: a process is
  reported gone when the table has no entry for its pid.\<close>

definition gone :: "'t env \<Rightarrow> nat \<Rightarrow> 't process \<Rightarrow> bool" where
  "gone e t p = (ptable e t (proc_pid p) = None)"

definition wait_procs :: "'t env \<Rightarrow> nat \<Rightarrow> 't process list \<Rightarrow> 't process list \<times> 't process list" where
  "wait_procs e t procs = (filter (gone e t) procs, filter (\<lambda>p. \<not> gone e t p) procs)"

text \<open>
  The \<open>while\<close> loop of the generator, started at instant \<open>t\<close>: the list of all values it
  yields, or \<open>None\<close> when it never stops. \<open>ended\<close> is yielded after every poll.
\<close>

partial_function (option) wait_loop :: "'t env \<Rightarrow> nat \<Rightarrow> 't process list \<Rightarrow> 't process list list option" where
  "wait_loop e t alive =
     (if length alive \<noteq> 0 then
        (case wait_procs e (Suc t) alive of
           (ended, alive') \<Rightarrow>
             Option.bind (wait_loop e (Suc t) alive') (\<lambda>rest. Some (ended # rest)))
      else Some [])"

definition snapshot :: "'t env \<Rightarrow> int \<Rightarrow> 't procinfo \<Rightarrow> 't process" where
  "snapshot e p i =
     \<lparr>proc_pid = p, proc_name = pname i,
      proc_create_time = (if init_caches_create_time e then Some (create_time i) else None),
      proc_cmdline = join '' '' (cmdline i)\<rparr>"

definition wait_process :: "'t env \<Rightarrow> args \<Rightarrow> (exn + 't process list list) option" where
  "wait_process e a =
     (case ptable e 0 (pid a) of
        None \<Rightarrow> Some (Inl (NoSuchProcess (pid a)))
      | Some i \<Rightarrow> map_option Inr (wait_loop e 0 [snapshot e (pid a) i]))"

subsection \<open>notify\<close>

definition resolve_password :: "'t env \<Rightarrow> world \<Rightarrow> string \<times> world" where
  "resolve_password e w =
     (let w1 = emit (GetEnv (environ_pass e)) w in
      case environ_pass e of
        Some p \<Rightarrow> (p, w1)
      | None \<Rightarrow>
          (let typed = getpass_in e (prompts w1)
           in (typed, emit (GetPass typed) (w1\<lparr>prompts := Suc (prompts w1)\<rparr>))))"

text \<open>
  Lines 150 to 172, \<open>n\<close> iterations left: \<open>Some password\<close> after the \<open>break\<close>,
  \<open>None\<close> when the range is used up with \<open>authentication_success\<close> still false.
\<close>

fun auth_loop :: "'t env \<Rightarrow> nat \<Rightarrow> world \<Rightarrow> (exn + string option) \<times> world" where
  "auth_loop e 0 w = (Inr None, w)"
| "auth_loop e (Suc n) w =
     (case resolve_password e w of
        (password, w1) \<Rightarrow>
          (case send_mail e Namespace password True w1 of
             (Inl x, w2) \<Rightarrow> (Inl x, w2)
           | (Inr Success, w2) \<Rightarrow> (Inr (Some password), w2)
           | (Inr OtherError, w2) \<Rightarrow> (Inl (SystemExit 0), w2)
           | (Inr LoginError, w2) \<Rightarrow> auth_loop e n w2))"

definition mail_subject :: "'t process \<Rightarrow> string" where
  "mail_subject p = ''The process with pid : '' @ str_int (proc_pid p) @ '' has ended''"

text \<open>
  \<open>time.strftime(..., time.localtime(ended_proc._create_time))\<close>: with \<open>None\<close> for an
  argument, \<open>time.localtime\<close> reads the clock.
\<close>

definition creation_time_text :: "'t env \<Rightarrow> 't process \<Rightarrow> world \<Rightarrow> string \<times> world" where
  "creation_time_text e p w =
     (case proc_create_time p of
        Some t \<Rightarrow> (strftime e t, w)
      | None \<Rightarrow> (strftime e (now e (clock_reads w)), w\<lparr>clock_reads := Suc (clock_reads w)\<rparr>))"

text \<open>The body, lines 186 to 190, from the name, the rendered time and the command line.\<close>

definition mail_body :: "string \<Rightarrow> string \<Rightarrow> string \<Rightarrow> string" where
  "mail_body name created cmd =
     [newline] @ ''Process name : '' @ name @ [newline]
     @ ''Creation time : '' @ created @ '' '' @ [newline]
     @ ''Command line used to invoke it : '' @ [CHR 0x27] @ cmd @ [CHR 0x27] @ [newline]
     @ replicate 16 CHR '' ''"

text \<open>Lines 183 to 194, the two nested \<open>for\<close> loops flattened; a result of \<open>_send_mail\<close>
  is dropped, an exception ends the loop.\<close>

fun notify_ended ::
  "'t env \<Rightarrow> args \<Rightarrow> string \<Rightarrow> string \<Rightarrow> 't process list \<Rightarrow> world \<Rightarrow> (exn + unit) \<times> world"
where
  "notify_ended e a sender password [] w = (Inr (), w)"
| "notify_ended e a sender password (p # ps) w =
     (case creation_time_text e p w of
        (created, w0) \<Rightarrow>
          (case format_mail e a sender (mail_subject p)
                  (mail_body (proc_name p) created (proc_cmdline p)) w0 of
             (Inl x, w1) \<Rightarrow> (Inl x, w1)
           | (Inr m, w1) \<Rightarrow>
               (case send_mail e (Message m) password False w1 of
                  (Inl x, w2) \<Rightarrow> (Inl x, w2)
                | (Inr _, w2) \<Rightarrow> notify_ended e a sender password ps w2)))"

text \<open>Lines 142 to 144: the module global \<open>conf\<close> and the three settings read from it.\<close>

definition read_settings :: "world \<Rightarrow> exn + string \<times> string \<times> string" where
  "read_settings w =
     (case notify_conf w of
        None \<Rightarrow> Inl (NameError ''conf'')
      | Some c \<Rightarrow>
     (case getitem2 c ''SMTP.servers'' ''server'' of Inl x \<Rightarrow> Inl x | Inr smtp_server \<Rightarrow>
     (case getitem2 c ''SMTP.port'' ''port'' of Inl x \<Rightarrow> Inl x | Inr smtp_port \<Rightarrow>
     (case getitem2 c ''SMTP.login'' ''sender'' of Inl x \<Rightarrow> Inl x | Inr sender_email \<Rightarrow>
        Inr (smtp_server, smtp_port, sender_email)))))"

text \<open>
  The function \<open>notify\<close>. The result is \<open>None\<close> when the watcher never stops; otherwise
  the exception or the returned value (the child's pid in the parent, nothing in the
  child) and the world afterwards.
\<close>

definition notify :: "'t env \<Rightarrow> args \<Rightarrow> world \<Rightarrow> ((exn + int option) \<times> world) option" where
  "notify e a w =
     (case read_settings w of
        Inl x \<Rightarrow> Some (Inl x, w)
      | Inr (smtp_server, smtp_port, sender_email) \<Rightarrow>
     (case auth_loop e 3 w of
        (Inl x, w1) \<Rightarrow> Some (Inl x, w1)
      | (Inr None, w1) \<Rightarrow>
          Some (Inl (SystemExit 0),
                emit (Log WARNING ''The username/password combination was failed too much time'')
                  (emit (Printed ''You failed your password too much times'') w1))
      | (Inr (Some password), w1) \<Rightarrow>
          (case fork e of
             Parent child \<Rightarrow> Some (Inr (Some child), w1)
           | Child \<Rightarrow>
               (case wait_process e a of
                  None \<Rightarrow> None
                | Some (Inl x) \<Rightarrow> Some (Inl x, w1)
                | Some (Inr batches) \<Rightarrow>
                    (case notify_ended e a sender_email password (concat batches) w1 of
                       (Inl x, w2) \<Rightarrow> Some (Inl x, w2)
                     | (Inr _, w2) \<Rightarrow> Some (Inr None, w2))))))"

text \<open>\<open>set_conf\<close>, the only writer of the module global.\<close>

definition set_conf :: "config \<Rightarrow> world \<Rightarrow> world" where
  "set_conf c w = w\<lparr>notify_conf := Some c\<rparr>"

section \<open>Sample inputs\<close>

text \<open>A server that accepts everything, a machine with no processes and no files, a
  psutil that stores the creation time, and the four sections the program reads.\<close>

definition ok_session :: session where
  "ok_session =
     \<lparr>connect_exn = None, ehlo1_exn = None, starttls_exn = None, ehlo2_exn = None,
      login_exn = None, send_exn = None, quit_exn = None\<rparr>"

definition base_env :: "nat env" where
  "base_env =
     \<lparr>os_kill = (\<lambda>_. ESRCH), environ_pass = Some ''secret'', getpass_in = (\<lambda>_. ''typed''),
      smtp = (\<lambda>_. ok_session), fork = Child, ptable = (\<lambda>_ _. None),
      init_caches_create_time = True, now = (\<lambda>_. 1700000120), strftime = str_nat,
      iglob = (\<lambda>_. []), isfile = (\<lambda>_. False), read_bytes = (\<lambda>_. None),
      guess_type = (\<lambda>_. (None, None))\<rparr>"

definition base_args :: args where
  "base_args = \<lparr>pid = 4242, attachments = None, to = None, destlist = None\<rparr>"

definition smtp_store :: config where
  "smtp_store =
     [(''SMTP.servers'', [(''server'', ''old.example.org'')]),
      (''SMTP.port'', [(''port'', ''587'')]),
      (''SMTP.login'', [(''sender'', ''me@example.org'')]),
      (''defaults'', [(''receiver'', ''you@example.org'')])]"

definition foreign_env :: "nat env" where
  "foreign_env = base_env\<lparr>os_kill := (\<lambda>_. EPERM)\<rparr>"

definition live_env :: "nat env" where
  "live_env = base_env\<lparr>os_kill := (\<lambda>_. Signalled)\<rparr>"


definition rejecting_env :: "nat env" where
  "rejecting_env =
     base_env\<lparr>smtp := (\<lambda>_. ok_session\<lparr>login_exn := Some SMTPAuthenticationError\<rparr>)\<rparr>"

definition typed_env :: "nat env" where
  "typed_env =
     base_env\<lparr>guess_type :=
       (\<lambda>f. if f = ''x.tar.gz'' then (Some ''application/x-tar'', Some ''gzip'')
            else if f = ''x.txt'' then (Some ''text/plain'', None)
            else (None, None))\<rparr>"

text \<open>The four steps of a session that precede \<open>login\<close> all went through.\<close>

definition handshake_ok :: "session \<Rightarrow> bool" where
  "handshake_ok s =
     (connect_exn s = None \<and> ehlo1_exn s = None \<and> starttls_exn s = None \<and> ehlo2_exn s = None)"

definition attach_env :: "nat env" where
  "attach_env =
     base_env\<lparr>iglob := (\<lambda>p. if p = ''a.txt'' then [''a.txt''] else if p = ''.'' then [''.''] else []),
              isfile := (\<lambda>p. p = ''a.txt''),
              read_bytes := (\<lambda>p. if p = ''a.txt'' then Some ''data'' else None),
              guess_type := (\<lambda>p. if p = ''a.txt'' then (Some ''text/plain'', None) else (None, None))\<rparr>"

definition attach_args :: args where
  "attach_args = base_args\<lparr>attachments := Some ''a.txt'', to := Some [''you@example.org'']\<rparr>"

definition to_args :: args where
  "to_args = base_args\<lparr>to := Some [''b@y.org'', ''a@x.org'']\<rparr>"

definition destlist_args :: args where
  "destlist_args = base_args\<lparr>destlist := Some (join [newline] [''b@y.org'', ''a@x.org''])\<rparr>"

definition sleep_info :: "nat procinfo" where
  "sleep_info = \<lparr>pname = ''sleep'', create_time = 1700000000, cmdline = [''sleep'', ''2'']\<rparr>"

text \<open>Pid 4242 runs \<open>sleep 2\<close>, changes its name after the start and is gone at instant 2.\<close>

definition exit2_env :: "nat env" where
  "exit2_env =
     base_env\<lparr>ptable := (\<lambda>t p. if p = 4242 \<and> t < 2
                               then Some (if t = 0 then sleep_info else sleep_info\<lparr>pname := ''renamed''\<rparr>)
                               else None)\<rparr>"

definition immortal_env :: "nat env" where
  "immortal_env = base_env\<lparr>ptable := (\<lambda>t p. if p = 4242 then Some sleep_info else None)\<rparr>"

text \<open>The same machine with a psutil whose constructor leaves \<open>_create_time\<close> unset; the
  process was created at 1700000000 and the clock shows 1700000120 when it is read.\<close>

definition uncached_env :: "nat env" where
  "uncached_env = exit2_env\<lparr>init_caches_create_time := False\<rparr>"




section \<open>Observations on traces\<close>

text \<open>The messages transmitted, in order.\<close>

definition mails :: "event list \<Rightarrow> email list" where
  "mails tr = concat (map (\<lambda>ev. case ev of MailSent m \<Rightarrow> [m] | _ \<Rightarrow> []) tr)"

fun is_session :: "event \<Rightarrow> bool" where
  "is_session (Session _ _) = True"
| "is_session _ = False"

text \<open>
  The discipline of the authentication phase, read off a trace against the environment:
  every lookup of the variable reports what the environment holds; a prompt follows
  exactly when the variable is unset, and reports what the user typed at that prompt;
  every SMTP session is test-only and uses the password so resolved since the previous
  session; no message is transmitted. The arguments are the number of prompts made so
  far and the password resolved and not yet used.
\<close>

fun auth_protocol :: "'t env \<Rightarrow> nat \<Rightarrow> string option \<Rightarrow> event list \<Rightarrow> bool" where
  "auth_protocol e n st [] = True"
| "auth_protocol e n st (GetEnv (Some p) # evs) =
     (environ_pass e = Some p \<and> auth_protocol e n (Some p) evs)"
| "auth_protocol e n st (GetEnv None # GetPass t # evs) =
     (environ_pass e = None \<and> t = getpass_in e n \<and> auth_protocol e (Suc n) (Some t) evs)"
| "auth_protocol e n st (GetEnv None # evs) = False"
| "auth_protocol e n st (GetPass t # evs) = False"
| "auth_protocol e n st (Session t pw # evs) = (t \<and> st = Some pw \<and> auth_protocol e n None evs)"
| "auth_protocol e n st (MailSent m # evs) = False"
| "auth_protocol e n st (Log l s # evs) = auth_protocol e n st evs"
| "auth_protocol e n st (Printed s # evs) = auth_protocol e n st evs"

text \<open>The password the \<open>i\<close>-th resolution yields when \<open>n\<close> prompts were made before the
  first: the variable when it is set, else what is typed at prompt \<open>n + i\<close>.\<close>

definition resolved :: "'t env \<Rightarrow> nat \<Rightarrow> nat \<Rightarrow> string" where
  "resolved e n i = (case environ_pass e of Some p \<Rightarrow> p | None \<Rightarrow> getpass_in e (n + i))"

text \<open>How a session that opens and closes normally answers a login: rejected, accepted,
  or failing otherwise.\<close>

definition rejects :: "session \<Rightarrow> bool" where
  "rejects s =
     (handshake_ok s \<and> quit_exn s = None \<and> login_exn s = Some SMTPAuthenticationError)"

definition accepts :: "session \<Rightarrow> bool" where
  "accepts s = (handshake_ok s \<and> quit_exn s = None \<and> login_exn s = None)"

definition breaks :: "session \<Rightarrow> bool" where
  "breaks s =
     (handshake_ok s \<and> quit_exn s = None \<and>
      (case login_exn s of None \<Rightarrow> False | Some x \<Rightarrow> x \<noteq> SMTPAuthenticationError \<and> is_Exception x))"

definition ready_world :: world where
  "ready_world = set_conf smtp_store (initial_world smtp_store)"

definition broken_env :: "nat env" where
  "broken_env = base_env\<lparr>smtp := (\<lambda>_. ok_session\<lparr>login_exn := Some (OSError ''Connection reset'')\<rparr>)\<rparr>"

text \<open>No environment variable; the first two typed passwords are rejected.\<close>

definition retry_env :: "nat env" where
  "retry_env =
     base_env\<lparr>environ_pass := None,
              getpass_in := (\<lambda>n. if n < 2 then ''wrong'' else ''right''),
              smtp := (\<lambda>n. if n < 2 then ok_session\<lparr>login_exn := Some SMTPAuthenticationError\<rparr>
                           else ok_session),
              fork := Parent 777\<rparr>"

section \<open>Properties\<close>

subsection \<open>The config subcommand\<close>

lemma config_keys_raises:
  "\<exists>k \<in> fst ` set kvs. flags k \<noteq> None \<Longrightarrow>
     fst (config_keys flags kvs) = Some (AttributeError ''logger'')"
proof (induction kvs)
  case Nil
  then show ?case by simp
next
  case (Cons kv kvs)
  obtain k v where kv: "kv = (k, v)" by (cases kv)
  show ?case
  proof (cases "flags k")
    case None
    with Cons.prems have "\<exists>k \<in> fst ` set kvs. flags k \<noteq> None" by (auto simp: kv)
    from Cons.IH [OF this] None show ?thesis by (auto simp: kv split: prod.splits)
  next
    case (Some x)
    then show ?thesis by (simp add: kv)
  qed
qed

lemma config_keys_quiet:
  "\<forall>k \<in> fst ` set kvs. flags k = None \<Longrightarrow> config_keys flags kvs = (None, kvs)"
  by (induction kvs) (auto split: option.splits prod.splits)

lemma config_sections_raises:
  "\<exists>k \<in> set (option_keys c). flags k \<noteq> None \<Longrightarrow>
     fst (config_sections flags c) = Some (AttributeError ''logger'')"
proof (induction c)
  case Nil
  then show ?case by (simp add: option_keys_def)
next
  case (Cons sk c)
  obtain s kvs where sk: "sk = (s, kvs)" by (cases sk)
  show ?case
  proof (cases "\<exists>k \<in> fst ` set kvs. flags k \<noteq> None")
    case True
    from config_keys_raises [OF True] show ?thesis
      by (auto simp: sk split: prod.splits option.splits)
  next
    case False
    then have q: "config_keys flags kvs = (None, kvs)" by (intro config_keys_quiet) auto
    from False Cons.prems have "\<exists>k \<in> set (option_keys c). flags k \<noteq> None"
      by (auto simp: sk option_keys_def)
    from Cons.IH [OF this] show ?thesis
      by (auto simp: sk q split: prod.splits)
  qed
qed

text \<open>
  Whenever a flag is supplied for a key of the store, \<open>config_target\<close> ends with
  \<open>AttributeError\<close> and the file on disk is what it was.
\<close>

lemma config_target_supplied_flag:
  assumes "\<exists>k \<in> set (option_keys (conf w)). flags k \<noteq> None"
  shows "fst (config_target flags w) = Inl (AttributeError ''logger'')"
    and "conf_ini (snd (config_target flags w)) = conf_ini w"
  using config_sections_raises [OF assms]
  by (auto simp: config_target_def split: prod.splits option.splits)

text \<open>
  Claim C9. The claim: after \<open>config --x v\<close> the persisted store has \<open>x = v\<close>, other keys
  keep their values, and repeating the edit changes nothing. The code at the input
  \<open>config --server new.example.org\<close> on a store holding \<open>server = old.example.org\<close>:
  the run ends with \<open>AttributeError\<close> and the store still holds the old value.
\<close>

theorem config_edit_not_persisted:
  "fst (main e (Config [''server'' \<mapsto> ''new.example.org'']) (initial_world smtp_store))
     = Inl (AttributeError ''logger'')
   \<and> getitem2 (conf_ini (snd (main e (Config [''server'' \<mapsto> ''new.example.org''])
                                   (initial_world smtp_store))))
        ''SMTP.servers'' ''server'' = Inr ''old.example.org''"
  by (simp add: main_def initial_world_def smtp_store_def option_keys_def config_target_def
      getitem2_def)

subsection \<open>The notify subcommand\<close>

text \<open>
  Claim C1, as amended. For every target pid for which \<open>os.kill(pid, 0)\<close> reports that no
  such process exists, \<open>notify_target\<close> ends at once with an uncaught
  \<open>ProcessLookupError\<close> whose message names the pid; the world is untouched (no
  authentication, no watching, no mail), and the exit status is 1.
\<close>

theorem dead_pid_raises:
  assumes "os_kill e (pid a) = ESRCH"
  shows "notify_target e a w =
           (Inl (ProcessLookupError
                  (''The Process with PID : '' @ str_int (pid a) @ '' does not exist'')), w)
         \<and> exit_status (fst (notify_target e a w)) = 1"
  using assms by (simp add: notify_target_def)

theorem dead_pid_raises_witness:
  "os_kill base_env (pid base_args) = ESRCH
   \<and> fst (notify_target base_env base_args (initial_world smtp_store))
       = Inl (ProcessLookupError ''The Process with PID : 4242 does not exist'')
   \<and> snd (notify_target base_env base_args (initial_world smtp_store)) = initial_world smtp_store
   \<and> exit_status (fst (notify_target base_env base_args (initial_world smtp_store))) = 1"
proof -
  have h: "os_kill base_env (pid base_args) = ESRCH" by (simp add: base_env_def)
  have s: "str_int (pid base_args) = ''4242''"
    by (simp add: base_args_def str_int_def digit_char_def)
  from dead_pid_raises [OF h, of "initial_world smtp_store"] h s show ?thesis by simp
qed

text \<open>Claim C1 as stated fails on its last clause: at a dead pid the exit status is not 0.\<close>

theorem dead_pid_exit_code_counterexample:
  "os_kill base_env (pid base_args) = ESRCH
   \<and> exit_status (fst (notify_target base_env base_args (initial_world smtp_store))) \<noteq> 0"
  by (simp add: base_env_def notify_target_def)

lemma config_target_notify_conf: "notify_conf (snd (config_target flags w)) = notify_conf w"
  by (simp add: config_target_def split: prod.splits option.splits)

lemma notify_target_notify_conf: "notify_conf (snd (notify_target e a w)) = notify_conf w"
  by (simp add: notify_target_def py_call_def e_notify_notify_def split: kill_result.splits)

lemma main_notify_conf: "notify_conf (snd (main e cmd w)) = notify_conf w"
  by (simp add: main_def Let_def emit_def config_target_notify_conf notify_target_notify_conf
      split: command.splits)

text \<open>
  Claim C2, as amended. For every invocation of the notify subcommand whose probe
  \<open>os.kill(pid, 0)\<close> returns normally, the call \<open>notify(args)\<close> raises \<open>TypeError\<close>, the
  name being bound to the module: the world is what it was after loading the store, so
  no authentication, watching or mail send has happened, and the module global \<open>conf\<close>
  of \<open>src/notify.py\<close> is still unbound at the end of the run.
\<close>

theorem probed_pid_type_error:
  assumes "os_kill e (pid a) = Signalled"
  shows "notify_target e a w = (Inl (TypeError ''module object is not callable''), w)
         \<and> (distinct (option_keys store) \<longrightarrow>
              main e (Notify a) (initial_world store)
                = (Inl (TypeError ''module object is not callable''),
                   (initial_world store)\<lparr>conf := store\<rparr>))
         \<and> notify_conf (snd (main e (Notify a) (initial_world store))) = None"
proof -
  have t: "notify_target e a w = (Inl (TypeError ''module object is not callable''), w)" for w
    using assms by (simp add: notify_target_def py_call_def e_notify_notify_def)
  have m: "distinct (option_keys store) \<longrightarrow>
              main e (Notify a) (initial_world store)
                = (Inl (TypeError ''module object is not callable''),
                   (initial_world store)\<lparr>conf := store\<rparr>)"
    by (simp add: main_def t initial_world_def)
  have n: "notify_conf (snd (main e (Notify a) (initial_world store))) = None"
    by (simp add: main_notify_conf) (simp add: initial_world_def)
  from t m n show ?thesis by blast
qed

theorem probed_pid_type_error_witness:
  "os_kill live_env (pid base_args) = Signalled
   \<and> distinct (option_keys smtp_store)
   \<and> main live_env (Notify base_args) (initial_world smtp_store)
       = (Inl (TypeError ''module object is not callable''),
          (initial_world smtp_store)\<lparr>conf := smtp_store\<rparr>)
   \<and> trace (snd (main live_env (Notify base_args) (initial_world smtp_store))) = []
   \<and> notify_conf (snd (main live_env (Notify base_args) (initial_world smtp_store))) = None"
proof -
  have h: "os_kill live_env (pid base_args) = Signalled" by (simp add: live_env_def base_env_def)
  have d: "distinct (option_keys smtp_store)" by (simp add: option_keys_def smtp_store_def)
  from probed_pid_type_error [OF h, of _ smtp_store] h d show ?thesis
    by (simp add: initial_world_def)
qed

text \<open>
  Claim C2 as stated fails for a target that is alive but may not be signalled by the
  caller (another user's process): the probe raises \<open>PermissionError\<close>, which the
  \<open>except ProcessLookupError\<close> clause does not catch.
\<close>

theorem live_pid_permission_counterexample:
  "os_kill foreign_env (pid base_args) \<noteq> ESRCH
   \<and> fst (main foreign_env (Notify base_args) (initial_world smtp_store)) = Inl PermissionError"
  by (simp add: foreign_env_def base_env_def main_def notify_target_def initial_world_def
      option_keys_def smtp_store_def)

subsection \<open>\_send\_mail\<close>




subsection \<open>\_format\_mail\<close>

lemma split1_octet:
  "split1 CHR ''/'' ''application/octet-stream'' = [''application'', ''octet-stream'']"
  by (simp add: split1_def)

text \<open>
  Claim C10. For every path whose type cannot be guessed, or whose guess carries an
  encoding, the resolution returns (does not raise) exactly the pair
  \<open>("application", "octet-stream")\<close>. For a guess of the form type/subtype without
  encoding it returns that type cut at the first slash.
\<close>

theorem mime_fallback:
  "(fst (guess_type e f) = None \<or> snd (guess_type e f) \<noteq> None \<longrightarrow>
      fst (resolve_mime e f w) = Inr (''application'', ''octet-stream''))
   \<and> (\<forall>ct. guess_type e f = (Some ct, None) \<and> CHR ''/'' \<in> set ct \<longrightarrow>
        fst (resolve_mime e f w)
          = Inr (takeWhile (\<lambda>x. x \<noteq> CHR ''/'') ct, tl (dropWhile (\<lambda>x. x \<noteq> CHR ''/'') ct)))"
proof -
  have 1: "fst (guess_type e f) = None \<or> snd (guess_type e f) \<noteq> None \<longrightarrow>
      fst (resolve_mime e f w) = Inr (''application'', ''octet-stream'')"
    by (cases "guess_type e f") (auto simp: resolve_mime_def split1_octet split: option.splits)
  have 2: "\<forall>ct. guess_type e f = (Some ct, None) \<and> CHR ''/'' \<in> set ct \<longrightarrow>
        fst (resolve_mime e f w)
          = Inr (takeWhile (\<lambda>x. x \<noteq> CHR ''/'') ct, tl (dropWhile (\<lambda>x. x \<noteq> CHR ''/'') ct))"
    by (simp add: resolve_mime_def split1_def)
  from 1 2 show ?thesis by blast
qed

theorem mime_fallback_witness:
  "fst (resolve_mime typed_env ''x.tar.gz'' (initial_world smtp_store))
     = Inr (''application'', ''octet-stream'')
   \<and> fst (resolve_mime typed_env ''x.unknown'' (initial_world smtp_store))
     = Inr (''application'', ''octet-stream'')
   \<and> fst (resolve_mime typed_env ''x.txt'' (initial_world smtp_store)) = Inr (''text'', ''plain'')"
proof -
  have g: "snd (guess_type typed_env ''x.tar.gz'') \<noteq> None"
          "fst (guess_type typed_env ''x.unknown'') = None"
          "guess_type typed_env ''x.txt'' = (Some ''text/plain'', None)"
          "CHR ''/'' \<in> set ''text/plain''"
    by (simp_all add: typed_env_def base_env_def)
  from mime_fallback [of typed_env "''x.tar.gz''" "initial_world smtp_store"]
       mime_fallback [of typed_env "''x.unknown''" "initial_world smtp_store"]
       mime_fallback [of typed_env "''x.txt''" "initial_world smtp_store"] g
  show ?thesis by simp
qed

lemma split_chr_no_sep: "c \<notin> set l \<Longrightarrow> split_chr c l = [l]"
  by (induction l) auto

lemma split_chr_append: "c \<notin> set l \<Longrightarrow> split_chr c (l @ c # rest) = l # split_chr c rest"
  by (induction l) auto

text \<open>A file written as addresses separated by newlines splits back into them.\<close>

lemma split_join:
  "ls \<noteq> [] \<Longrightarrow> \<forall>l \<in> set ls. c \<notin> set l \<Longrightarrow> split_chr c (join [c] ls) = ls"
  by (induction "[c]" ls rule: join.induct) (auto simp: split_chr_no_sep split_chr_append)

text \<open>A final newline adds one empty last field to what \<open>split\<close> returns.\<close>

lemma split_join_trailing:
  "ls \<noteq> [] \<Longrightarrow> \<forall>l \<in> set ls. c \<notin> set l \<Longrightarrow> split_chr c (join [c] ls @ [c]) = ls @ [[]]"
  by (induction "[c]" ls rule: join.induct) (auto simp: split_chr_append)

lemma attach_files_To: "attach_files e fs m w = (Inr m', w') \<Longrightarrow> To m' = To m"
  by (induction e fs m w rule: attach_files.induct)
     (auto split: if_splits prod.splits sum.splits option.splits)

lemma attach_paths_To: "attach_paths e ps m w = (Inr m', w') \<Longrightarrow> To m' = To m"
  by (induction e ps m w rule: attach_paths.induct)
     (auto split: prod.splits sum.splits dest: attach_files_To)

lemma resolve_mime_trace: "resolve_mime e f w = (r, w1) \<Longrightarrow> set (trace w) \<subseteq> set (trace w1)"
  by (auto simp: resolve_mime_def emit_def Let_def split: prod.splits option.splits list.splits)

lemma attach_files_trace: "attach_files e fs m w = (r, w') \<Longrightarrow> set (trace w) \<subseteq> set (trace w')"
proof (induction e fs m w arbitrary: r w' rule: attach_files.induct)
  case (1 e m w)
  then show ?case by simp
next
  case (2 e f fs m w)
  show ?case
  proof (cases "isfile e f")
    case False
    with 2(1) [OF False] 2(3) show ?thesis by (auto simp: emit_def)
  next
    case True
    obtain r1 w1 where r: "resolve_mime e f w = (r1, w1)" by (cases "resolve_mime e f w")
    note s = resolve_mime_trace [OF r]
    show ?thesis
    proof (cases r1)
      case (Inl x)
      with True r s 2(3) show ?thesis by auto
    next
      case (Inr ms)
      obtain mt st where ms: "ms = (mt, st)" by (cases ms)
      show ?thesis
      proof (cases "read_bytes e f")
        case None
        with True r s Inr ms 2(3) show ?thesis by auto
      next
        case (Some data)
        have "attach_files e fs
                (m\<lparr>parts := parts m @ [\<lparr>content = data, maintype = mt, subtype = st, filename = basename f\<rparr>]\<rparr>)
                (emit (Log DEBUG (''Successfully attached the file '' @ f)) w1) = (r, w')"
          using 2(3) True r Inr ms Some by simp
        from 2(2) [OF _ _ _ _ Some this] True r Inr ms
        have "set (trace (emit (Log DEBUG (''Successfully attached the file '' @ f)) w1)) \<subseteq> set (trace w')"
          by simp
        with s show ?thesis by (auto simp: emit_def)
      qed
    qed
  qed
qed

lemma attach_paths_trace: "attach_paths e ps m w = (r, w') \<Longrightarrow> set (trace w) \<subseteq> set (trace w')"
proof (induction e ps m w arbitrary: r w' rule: attach_paths.induct)
  case (1 e m w)
  then show ?case by simp
next
  case (2 e p ps m w)
  obtain r1 w1 where r: "attach_files e (iglob e p) m w = (r1, w1)"
    by (cases "attach_files e (iglob e p) m w")
  note s = attach_files_trace [OF r]
  show ?case
  proof (cases r1)
    case (Inl x)
    with r s 2(2) show ?thesis by auto
  next
    case (Inr m1)
    have "attach_paths e ps m1 w1 = (r, w')" using 2(2) r Inr by simp
    from 2(1) [OF _ _ this] r Inr s show ?thesis by auto
  qed
qed

text \<open>
  Claim C7. Whenever \<open>_format_mail\<close> returns a message, the string it assigned to the
  \<open>To\<close> header is: the explicit list joined in order, when one was given; otherwise the
  newline-separated fields of the recipient file joined in order, when a file was given;
  otherwise the configured default receiver, and then the informational log line about
  the fallback is in the trace.
\<close>

theorem recipient_resolution:
  assumes "format_mail e a sender subject text w = (Inr m, w')"
  shows "(\<forall>addrs. to a = Some addrs \<longrightarrow> To m = join '', '' addrs)
       \<and> (\<forall>ls. to a = None \<and> destlist a = Some (join [newline] ls) \<and> ls \<noteq> []
               \<and> (\<forall>l \<in> set ls. newline \<notin> set l) \<longrightarrow> To m = join '', '' ls)
       \<and> (to a = None \<and> destlist a = None \<longrightarrow>
            (\<exists>cf. notify_conf w = Some cf \<and> getitem2 cf ''defaults'' ''receiver'' = Inr (To m))
            \<and> Log INFO (''E-mail header To was not fed to cmd, defaulting to '' @ To m) \<in> set (trace w'))"
proof -
  let ?w = "emit (Log DEBUG (''Changed the email header From to '' @ sender)) w"
  obtain rcpt w1 where rt: "resolve_to a ?w = (Inr rcpt, w1)"
    using assms by (auto simp: format_mail_def Let_def split: prod.splits sum.splits)
  let ?m0 = "\<lparr>Subject = subject, From = sender, To = rcpt, body = text, parts = []\<rparr>"
  let ?w2 = "emit (Log DEBUG (''Changed the email header To to '' @ rcpt)) w1"
  have fin: "To m = rcpt \<and> set (trace ?w2) \<subseteq> set (trace w')"
  proof (cases "attachments a")
    case None
    with assms rt show ?thesis by (auto simp: format_mail_def Let_def)
  next
    case (Some s)
    with assms rt have ap: "attach_paths e (iter_str s) ?m0 ?w2 = (Inr m, w')"
      by (simp add: format_mail_def Let_def)
    from attach_paths_To [OF ap] attach_paths_trace [OF ap] show ?thesis by simp
  qed
  then have To: "To m = rcpt" and tr: "set (trace w1) \<subseteq> set (trace w')"
    by (auto simp: emit_def)
  have 1: "\<forall>addrs. to a = Some addrs \<longrightarrow> To m = join '', '' addrs"
    using rt To by (auto simp: resolve_to_def)
  have 2: "\<forall>ls. to a = None \<and> destlist a = Some (join [newline] ls) \<and> ls \<noteq> []
               \<and> (\<forall>l \<in> set ls. newline \<notin> set l) \<longrightarrow> To m = join '', '' ls"
    using rt To by (auto simp: resolve_to_def split_join)
  have 3: "to a = None \<and> destlist a = None \<longrightarrow>
            (\<exists>cf. notify_conf w = Some cf \<and> getitem2 cf ''defaults'' ''receiver'' = Inr (To m))
            \<and> Log INFO (''E-mail header To was not fed to cmd, defaulting to '' @ To m) \<in> set (trace w')"
    using rt To tr by (auto simp: resolve_to_def emit_def split: option.splits sum.splits)
  from 1 2 3 show ?thesis by blast
qed

lemmas format_mail_eval =
  format_mail_def resolve_to_def Let_def emit_def initial_world_def getitem2_def
  ready_world_def set_conf_def
  smtp_store_def base_args_def base_env_def

theorem recipient_resolution_witness:
  "map_sum id To (fst (format_mail base_env to_args ''me@example.org'' ''s'' ''t''
      ready_world)) = Inr ''b@y.org, a@x.org''
   \<and> map_sum id To (fst (format_mail base_env destlist_args ''me@example.org'' ''s'' ''t''
      ready_world)) = Inr ''b@y.org, a@x.org''
   \<and> map_sum id To (fst (format_mail base_env base_args ''me@example.org'' ''s'' ''t''
      ready_world)) = Inr ''you@example.org''"
proof -
  obtain m1 w1 where h1: "format_mail base_env to_args ''me@example.org'' ''s'' ''t''
      ready_world = (Inr m1, w1)"
    by (simp add: format_mail_eval to_args_def)
  obtain m2 w2 where h2: "format_mail base_env destlist_args ''me@example.org'' ''s'' ''t''
      ready_world = (Inr m2, w2)"
    by (simp add: format_mail_eval destlist_args_def newline_def)
  obtain m3 w3 where h3: "format_mail base_env base_args ''me@example.org'' ''s'' ''t''
      ready_world = (Inr m3, w3)"
    by (simp add: format_mail_eval)
  have a1: "to to_args = Some [''b@y.org'', ''a@x.org'']" by (simp add: to_args_def base_args_def)
  have a2: "to destlist_args = None \<and> destlist destlist_args = Some (join [newline] [''b@y.org'', ''a@x.org''])
            \<and> [''b@y.org'', ''a@x.org''] \<noteq> [] \<and> (\<forall>l \<in> set [''b@y.org'', ''a@x.org'']. newline \<notin> set l)"
    by (simp add: destlist_args_def base_args_def newline_def)
  have a3: "to base_args = None \<and> destlist base_args = None" by (simp add: base_args_def)
  from recipient_resolution [OF h1] a1 have "To m1 = ''b@y.org, a@x.org''" by simp
  moreover have "To m2 = ''b@y.org, a@x.org''"
  proof -
    from recipient_resolution [OF h2]
    have "to destlist_args = None \<and> destlist destlist_args = Some (join [newline] ls) \<and> ls \<noteq> []
            \<and> (\<forall>l \<in> set ls. newline \<notin> set l) \<longrightarrow> To m2 = join '', '' ls" for ls
      by blast
    from this [of "[''b@y.org'', ''a@x.org'']"] a2 have "To m2 = join '', '' [''b@y.org'', ''a@x.org'']"
      by blast
    then show ?thesis by simp
  qed
  moreover have "notify_conf ready_world = Some smtp_store"
    by (simp add: ready_world_def set_conf_def initial_world_def)
  with recipient_resolution [OF h3] a3
  have "getitem2 smtp_store ''defaults'' ''receiver'' = Inr (To m3)" by auto
  then have "To m3 = ''you@example.org''" by (simp add: getitem2_def smtp_store_def)
  ultimately show ?thesis using h1 h2 h3 by simp
qed

text \<open>Without \<open>--attach\<close> the message is returned at line 56, with no part.\<close>

lemma format_mail_no_attachments:
  assumes "attachments a = None" and "resolve_to a (emit (Log DEBUG (''Changed the email header From to '' @ sender)) w) = (Inr rcpt, w1)"
  shows "format_mail e a sender subject text w
           = (Inr \<lparr>Subject = subject, From = sender, To = rcpt, body = text, parts = []\<rparr>,
              emit (Log DEBUG (''Changed the email header To to '' @ rcpt)) w1)"
  using assms by (simp add: format_mail_def Let_def)

lemma resolve_mime_returns:
  assumes "\<forall>ct. guess_type e f = (Some ct, None) \<longrightarrow> CHR ''/'' \<in> set ct"
  shows "\<exists>mt st w1. resolve_mime e f w = (Inr (mt, st), w1)"
proof (cases "guess_type e f")
  case (Pair ct enc)
  show ?thesis
  proof (cases "ct \<noteq> None \<and> enc = None")
    case True
    then obtain t where t: "ct = Some t" "enc = None" by auto
    with assms Pair have "CHR ''/'' \<in> set t" by simp
    with Pair t show ?thesis by (simp add: resolve_mime_def split1_def)
  next
    case False
    with Pair show ?thesis
      by (auto simp: resolve_mime_def split1_octet split: option.splits)
  qed
qed

text \<open>The inner loop on the paths of one pattern: one part per regular file.\<close>

lemma attach_files_parts:
  assumes "\<forall>f \<in> set fs. isfile e f \<longrightarrow>
             read_bytes e f \<noteq> None \<and> (\<forall>ct. guess_type e f = (Some ct, None) \<longrightarrow> CHR ''/'' \<in> set ct)"
  shows "\<exists>m' w'. attach_files e fs m w = (Inr m', w')
           \<and> length (parts m') = length (parts m) + length (filter (isfile e) fs)"
  using assms
proof (induction fs arbitrary: m w)
  case Nil
  then show ?case by simp
next
  case (Cons f fs)
  show ?case
  proof (cases "isfile e f")
    case False
    with Cons.IH [of m "emit (Log WARNING (f @ '' does not exist or is not a file, skipping it'')) w"]
      Cons.prems
    show ?thesis by auto
  next
    case True
    with Cons.prems obtain data where d: "read_bytes e f = Some data" by auto
    from True Cons.prems have "\<forall>ct. guess_type e f = (Some ct, None) \<longrightarrow> CHR ''/'' \<in> set ct" by simp
    from resolve_mime_returns [OF this, of w] obtain mt st w1
      where r: "resolve_mime e f w = (Inr (mt, st), w1)" by blast
    from Cons.IH [of "m\<lparr>parts := parts m @ [\<lparr>content = data, maintype = mt, subtype = st, filename = basename f\<rparr>]\<rparr>"
                     "emit (Log DEBUG (''Successfully attached the file '' @ f)) w1"] Cons.prems
    show ?thesis using True d r by auto
  qed
qed

text \<open>
  Claim C8. The claim: a pattern matching N regular files gives exactly N parts. The
  code at the input \<open>--attach a.txt\<close>, where \<open>a.txt\<close> expands to itself and is a readable
  regular file: \<open>args.attachments\<close> is the string, the loop of line 58 walks its
  characters, none of which expands to \<open>a.txt\<close>, and the message has no part.
\<close>

theorem attach_pattern_iterated_by_character:
  "iglob attach_env ''a.txt'' = [''a.txt'']
   \<and> isfile attach_env ''a.txt''
   \<and> read_bytes attach_env ''a.txt'' = Some ''data''
   \<and> iter_str ''a.txt'' = [''a'', ''.'', ''t'', ''x'', ''t'']
   \<and> map_sum id parts (fst (format_mail attach_env attach_args ''me@example.org'' ''s'' ''t''
        ready_world)) = Inr []"
  by (simp add: format_mail_eval attach_env_def attach_args_def iter_str_def)

subsection \<open>\_wait\_process\<close>

lemma wait_procs_single:
  "wait_procs e t [p] = (if gone e t p then ([p], []) else ([], [p]))"
  by (simp add: wait_procs_def)

lemma wait_loop_until_gone:
  assumes "\<forall>u. t < u \<and> u < k \<longrightarrow> \<not> gone e u p" and "gone e k p" and "t < k"
  shows "wait_loop e t [p] = Some (replicate (k - Suc t) [] @ [[p]])"
  using assms
proof (induction "k - Suc t" arbitrary: t)
  case 0
  then have k: "k = Suc t" by simp
  have "wait_loop e (Suc t) [] = Some []" by (subst wait_loop.simps) simp
  with 0 k show ?case by (subst wait_loop.simps) (simp add: wait_procs_single)
next
  case (Suc n)
  then have ng: "\<not> gone e (Suc t) p" and lt: "Suc t < k" by auto
  from Suc.hyps(2) have n: "n = k - Suc (Suc t)" by simp
  from Suc.prems have "\<forall>u. Suc t < u \<and> u < k \<longrightarrow> \<not> gone e u p" by auto
  from Suc.hyps(1) [OF n this Suc.prems(2) lt]
  have IH: "wait_loop e (Suc t) [p] = Some (replicate (k - Suc (Suc t)) [] @ [[p]])" .
  have r: "replicate (k - Suc t) ([] :: 'a process list) = [] # replicate (k - Suc (Suc t)) []"
    using lt by (metis Suc_diff_Suc replicate_Suc)
  show ?case by (subst wait_loop.simps) (simp add: wait_procs_single ng IH r)
qed

lemma wait_loop_never_gone_aux:
  assumes "wait_loop e' t alive = Some bs"
  shows "e' = e \<and> alive = [p] \<and> (\<forall>u. t < u \<longrightarrow> \<not> gone e u p) \<longrightarrow> False"
proof (rule wait_loop.raw_induct
    [where P = "\<lambda>e' t alive bs. e' = e \<and> alive = [p] \<and> (\<forall>u. t < u \<longrightarrow> \<not> gone e u p) \<longrightarrow> False",
     OF _ assms])
  fix f :: "'a env \<Rightarrow> nat \<Rightarrow> 'a process list \<Rightarrow> 'a process list list option"
  fix e' t alive bs
  assume IH: "\<And>e' t alive bs. f e' t alive = Some bs \<Longrightarrow>
                e' = e \<and> alive = [p] \<and> (\<forall>u. t < u \<longrightarrow> \<not> gone e u p) \<longrightarrow> False"
    and eq: "(if length alive \<noteq> 0
              then case wait_procs e' (Suc t) alive of
                     (ended, alive') \<Rightarrow>
                       Option.bind (f e' (Suc t) alive') (\<lambda>rest. Some (ended # rest))
              else Some []) = Some bs"
  show "e' = e \<and> alive = [p] \<and> (\<forall>u. t < u \<longrightarrow> \<not> gone e u p) \<longrightarrow> False"
  proof (intro impI)
    assume h: "e' = e \<and> alive = [p] \<and> (\<forall>u. t < u \<longrightarrow> \<not> gone e u p)"
    then have ng: "\<not> gone e (Suc t) p" by simp
    from eq h ng obtain rest where "f e (Suc t) [p] = Some rest"
      by (auto simp: wait_procs_single split: Option.bind_splits)
    from IH [OF this] h show False by auto
  qed
qed

lemma wait_loop_never_gone:
  assumes "\<forall>u. t < u \<longrightarrow> \<not> gone e u p"
  shows "wait_loop e t [p] = None"
proof (cases "wait_loop e t [p]")
  case None
  then show ?thesis .
next
  case (Some bs)
  from wait_loop_never_gone_aux [OF Some, of e p] assms show ?thesis by simp
qed

lemma wait_loop_yields_watched:
  assumes "wait_loop e t alive = Some bs"
  shows "set (concat bs) \<subseteq> set alive"
proof (rule wait_loop.raw_induct
    [where P = "\<lambda>e t alive bs. set (concat bs) \<subseteq> set alive", OF _ assms])
  fix f :: "'a env \<Rightarrow> nat \<Rightarrow> 'a process list \<Rightarrow> 'a process list list option"
  fix e t alive bs
  assume IH: "\<And>e t alive bs. f e t alive = Some bs \<Longrightarrow> set (concat bs) \<subseteq> set alive"
    and eq: "(if length alive \<noteq> 0
              then case wait_procs e (Suc t) alive of
                     (ended, alive') \<Rightarrow>
                       Option.bind (f e (Suc t) alive') (\<lambda>rest. Some (ended # rest))
              else Some []) = Some bs"
  show "set (concat bs) \<subseteq> set alive"
  proof (cases "length alive \<noteq> 0")
    case False
    with eq show ?thesis by simp
  next
    case True
    with eq obtain rest where r: "f e (Suc t) (filter (\<lambda>p. \<not> gone e (Suc t) p) alive) = Some rest"
      and bs: "bs = filter (gone e (Suc t)) alive # rest"
      by (auto simp: wait_procs_def split: Option.bind_splits)
    from IH [OF r] bs show ?thesis by auto
  qed
qed

text \<open>
  Claim C5, as amended. The watcher yields one batch per poll, the empty ones included.
  If the watched process is still in the table at every poll before the \<open>k\<close>-th and gone
  at the \<open>k\<close>-th, the sequence is \<open>k - 1\<close> empty batches followed by one batch holding the
  process, and it ends there, the alive set being empty; if the process is never gone
  the sequence never ends.
\<close>

theorem watcher_sequence:
  assumes "ptable e 0 (pid a) = Some i"
  shows "(\<forall>k. 0 < k \<and> (\<forall>t. 0 < t \<and> t < k \<longrightarrow> ptable e t (pid a) \<noteq> None) \<and> ptable e k (pid a) = None \<longrightarrow>
            wait_process e a = Some (Inr (replicate (k - 1) [] @ [[snapshot e (pid a) i]])))
       \<and> ((\<forall>t. 0 < t \<longrightarrow> ptable e t (pid a) \<noteq> None) \<longrightarrow> wait_process e a = None)"
proof -
  have p: "proc_pid (snapshot e (pid a) i) = pid a" by (simp add: snapshot_def)
  have 1: "wait_process e a = Some (Inr (replicate (k - 1) [] @ [[snapshot e (pid a) i]]))"
    if "0 < k" "\<forall>t. 0 < t \<and> t < k \<longrightarrow> ptable e t (pid a) \<noteq> None" "ptable e k (pid a) = None" for k
  proof -
    have "wait_loop e 0 [snapshot e (pid a) i] = Some (replicate (k - Suc 0) [] @ [[snapshot e (pid a) i]])"
      using that by (intro wait_loop_until_gone) (auto simp: gone_def p)
    with assms show ?thesis by (simp add: wait_process_def)
  qed
  have 2: "wait_process e a = None" if "\<forall>t. 0 < t \<longrightarrow> ptable e t (pid a) \<noteq> None"
  proof -
    have "wait_loop e 0 [snapshot e (pid a) i] = None"
      using that by (intro wait_loop_never_gone) (auto simp: gone_def p)
    with assms show ?thesis by (simp add: wait_process_def)
  qed
  from 1 2 show ?thesis by blast
qed

theorem watcher_sequence_witness:
  "ptable exit2_env 0 (pid base_args) = Some sleep_info
   \<and> ptable exit2_env 1 (pid base_args) \<noteq> None
   \<and> ptable exit2_env 2 (pid base_args) = None
   \<and> wait_process exit2_env base_args = Some (Inr [[], [snapshot exit2_env 4242 sleep_info]])
   \<and> wait_process immortal_env base_args = None"
proof -
  have h: "ptable exit2_env 0 (pid base_args) = Some sleep_info"
    by (simp add: exit2_env_def base_args_def)
  have k: "0 < (2::nat) \<and> (\<forall>t. 0 < t \<and> t < 2 \<longrightarrow> ptable exit2_env t (pid base_args) \<noteq> None)
           \<and> ptable exit2_env 2 (pid base_args) = None"
    by (simp add: exit2_env_def base_args_def)
  have one: "ptable exit2_env 1 (pid base_args) \<noteq> None" by (simp add: exit2_env_def base_args_def)
  have h': "ptable immortal_env 0 (pid base_args) = Some sleep_info"
    by (simp add: immortal_env_def base_args_def)
  have k': "\<forall>t. 0 < t \<longrightarrow> ptable immortal_env t (pid base_args) \<noteq> None"
    by (simp add: immortal_env_def base_args_def)
  from watcher_sequence [OF h] k
  have "wait_process exit2_env base_args = Some (Inr (replicate (2 - 1) [] @ [[snapshot exit2_env (pid base_args) sleep_info]]))"
    by blast
  then have a: "wait_process exit2_env base_args = Some (Inr [[], [snapshot exit2_env 4242 sleep_info]])"
    by (simp add: base_args_def)
  from watcher_sequence [OF h'] k' have b: "wait_process immortal_env base_args = None" by blast
  from h k one a b show ?thesis by simp
qed

text \<open>On the sample machine the watcher yields an empty batch, then the process.\<close>

lemma exit2_table_wait_process:
  assumes "ptable e = ptable exit2_env"
  shows "wait_process e base_args = Some (Inr [[], [snapshot e 4242 sleep_info]])"
proof -
  let ?p = "snapshot e 4242 sleep_info"
  have g: "gone e 2 ?p" "\<not> gone e 1 ?p"
    by (simp_all add: gone_def snapshot_def assms exit2_env_def)
  have "wait_loop e 0 [?p] = Some (replicate (2 - Suc 0) [] @ [[?p]])"
  proof (rule wait_loop_until_gone)
    show "\<forall>u. 0 < u \<and> u < 2 \<longrightarrow> \<not> gone e u ?p"
    proof (intro allI impI)
      fix u :: nat assume "0 < u \<and> u < 2"
      then have "u = 1" by simp
      with g show "\<not> gone e u ?p" by simp
    qed
  qed (use g in simp_all)
  then show ?thesis by (simp add: wait_process_def assms exit2_env_def base_args_def)
qed

lemma exit2_wait_process:
  "wait_process exit2_env base_args = Some (Inr [[], [snapshot exit2_env 4242 sleep_info]])"
  by (rule exit2_table_wait_process) simp

text \<open>
  Claim C5 as stated fails: a process that exits 2 polling intervals after start makes
  the watcher yield two batches, and the first one is empty.
\<close>

theorem watcher_empty_batch_counterexample:
  "wait_process exit2_env base_args = Some (Inr [[], [snapshot exit2_env 4242 sleep_info]])
   \<and> \<not> list_all (\<lambda>b. b \<noteq> []) [[], [snapshot exit2_env 4242 sleep_info]]"
  using exit2_wait_process by simp

subsection \<open>notify\<close>

lemma mails_append [simp]: "mails (a @ b) = mails a @ mails b"
  by (simp add: mails_def)

lemma mails_simps [simp]:
  "mails [] = []"
  "mails (Log l s # tr) = mails tr"
  "mails (Printed s # tr) = mails tr"
  "mails (GetEnv p # tr) = mails tr"
  "mails (GetPass s # tr) = mails tr"
  "mails (Session t pw # tr) = mails tr"
  "mails (MailSent m # tr) = m # mails tr"
  by (simp_all add: mails_def)

text \<open>What a test-only session appends to the trace: its opening, then log lines only.\<close>

lemma session_body_test_trace:
  "session_body s mail True w = (r, w1) \<Longrightarrow>
     \<exists>logs. trace w1 = trace w @ logs \<and> (\<forall>ev \<in> set logs. \<exists>l t. ev = Log l t)
          \<and> sessions w1 = sessions w \<and> prompts w1 = prompts w"
  by (auto simp: session_body_def emit_def Let_def split: option.splits if_splits)

lemma send_mail_test_trace:
  assumes "send_mail e mail pw True w = (r, w2)"
  shows "\<exists>logs. trace w2 = trace w @ Session True pw # logs
           \<and> (\<forall>ev \<in> set logs. \<exists>l t. ev = Log l t)
           \<and> sessions w2 = Suc (sessions w) \<and> prompts w2 = prompts w"
proof (cases "connect_exn (smtp e (sessions w))")
  case (Some x)
  with assms show ?thesis by (auto simp: send_mail_def emit_def Let_def)
next
  case None
  let ?w = "emit (Session True pw) (w\<lparr>sessions := Suc (sessions w)\<rparr>)"
  obtain r1 w1 where sb: "session_body (smtp e (sessions w)) mail True ?w = (r1, w1)"
    by (cases "session_body (smtp e (sessions w)) mail True ?w")
  from assms None sb have w2: "w2 = w1"
    by (auto simp: send_mail_def Let_def split: option.splits)
  from session_body_test_trace [OF sb] obtain logs where
    "trace w1 = trace ?w @ logs" "\<forall>ev \<in> set logs. \<exists>l t. ev = Log l t"
    "sessions w1 = sessions ?w" "prompts w1 = prompts ?w"
    by blast
  with w2 show ?thesis by (intro exI [of _ logs]) (simp add: emit_def)
qed

lemma auth_protocol_logs:
  "\<forall>ev \<in> set logs. \<exists>l t. ev = Log l t \<Longrightarrow>
     auth_protocol e n st (logs @ tr) = auth_protocol e n st tr"
  by (induction logs) auto

lemma no_session_in_logs:
  "\<forall>ev \<in> set logs. \<exists>l t. ev = Log l t \<Longrightarrow> filter is_session logs = [] \<and> mails logs = []"
  by (induction logs) auto

text \<open>One iteration of the loop: the password is the one the environment yields, and
  the events appended keep the discipline.\<close>

lemma one_attempt:
  assumes "resolve_password e w = (pw, w1)" and "send_mail e Namespace pw True w1 = (r, w2)"
  shows "\<exists>blk. trace w2 = trace w @ blk
           \<and> (\<forall>st tr. auth_protocol e (prompts w) st (blk @ tr)
                        = auth_protocol e (prompts w2) None tr)
           \<and> length (filter is_session blk) = 1 \<and> mails blk = []
           \<and> sessions w2 = Suc (sessions w)
           \<and> pw = resolved e (prompts w) 0
           \<and> prompts w2 = (case environ_pass e of Some p \<Rightarrow> prompts w | None \<Rightarrow> Suc (prompts w))"
proof -
  from send_mail_test_trace [OF assms(2)] obtain logs where
    l: "trace w2 = trace w1 @ Session True pw # logs" "\<forall>ev \<in> set logs. \<exists>l t. ev = Log l t"
       "sessions w2 = Suc (sessions w1)" "prompts w2 = prompts w1"
    by blast
  note pl = auth_protocol_logs [OF l(2)]
  note ns = no_session_in_logs [OF l(2)]
  show ?thesis
  proof (cases "environ_pass e")
    case (Some p)
    with assms(1) have w1: "pw = p" "w1 = emit (GetEnv (Some p)) w"
      by (auto simp: resolve_password_def Let_def)
    let ?blk = "GetEnv (Some p) # Session True pw # logs"
    have "trace w2 = trace w @ ?blk" using l(1) w1 by (simp add: emit_def)
    moreover have "\<forall>st tr. auth_protocol e (prompts w) st (?blk @ tr)
                        = auth_protocol e (prompts w2) None tr"
      using Some w1 l(4) by (simp add: emit_def pl)
    moreover have "length (filter is_session ?blk) = 1 \<and> mails ?blk = []" using ns by simp
    moreover have "sessions w2 = Suc (sessions w)" using l(3) w1 by (simp add: emit_def)
    moreover have "pw = resolved e (prompts w) 0" using Some w1 by (simp add: resolved_def)
    moreover have "prompts w2 = (case environ_pass e of Some p \<Rightarrow> prompts w | None \<Rightarrow> Suc (prompts w))"
      using Some l(4) w1 by (simp add: emit_def)
    ultimately show ?thesis by blast
  next
    case None
    with assms(1) have w1: "pw = getpass_in e (prompts w)"
      "w1 = emit (GetPass pw) ((emit (GetEnv None) w)\<lparr>prompts := Suc (prompts w)\<rparr>)"
      by (auto simp: resolve_password_def Let_def emit_def)
    let ?blk = "GetEnv None # GetPass pw # Session True pw # logs"
    have "trace w2 = trace w @ ?blk" using l(1) w1 by (simp add: emit_def)
    moreover have "\<forall>st tr. auth_protocol e (prompts w) st (?blk @ tr)
                        = auth_protocol e (prompts w2) None tr"
      using None w1 l(4) by (simp add: emit_def pl)
    moreover have "length (filter is_session ?blk) = 1 \<and> mails ?blk = []" using ns by simp
    moreover have "sessions w2 = Suc (sessions w)" using l(3) w1 by (simp add: emit_def)
    moreover have "pw = resolved e (prompts w) 0" using None w1 by (simp add: resolved_def)
    moreover have "prompts w2 = (case environ_pass e of Some p \<Rightarrow> prompts w | None \<Rightarrow> Suc (prompts w))"
      using None l(4) w1 by (simp add: emit_def)
    ultimately show ?thesis by blast
  qed
qed

lemma auth_loop_trace:
  "\<exists>tr. trace (snd (auth_loop e n w)) = trace w @ tr \<and> auth_protocol e (prompts w) None tr
        \<and> length (filter is_session tr) \<le> n
        \<and> sessions (snd (auth_loop e n w)) = sessions w + length (filter is_session tr)
        \<and> mails tr = []"
proof (induction n arbitrary: w)
  case 0
  show ?case by simp
next
  case (Suc n)
  obtain pw w1 where rp: "resolve_password e w = (pw, w1)" by (cases "resolve_password e w")
  obtain r w2 where sm: "send_mail e Namespace pw True w1 = (r, w2)"
    by (cases "send_mail e Namespace pw True w1")
  from one_attempt [OF rp sm] obtain blk where blk: "trace w2 = trace w @ blk"
    "\<And>st tr. auth_protocol e (prompts w) st (blk @ tr) = auth_protocol e (prompts w2) None tr"
    "length (filter is_session blk) = 1" "mails blk = []" "sessions w2 = Suc (sessions w)"
    by blast
  from blk(2) [of None "[]"] have ok: "auth_protocol e (prompts w) None blk" by simp
  show ?case
  proof (cases "r = Inr LoginError")
    case False
    then have "snd (auth_loop e (Suc n) w) = w2"
      using rp sm by (auto split: sum.splits ReturnValue.splits)
    with blk ok show ?thesis by (intro exI [of _ blk]) simp
  next
    case True
    then have eq: "auth_loop e (Suc n) w = auth_loop e n w2" using rp sm by simp
    from Suc.IH [of w2] obtain tr where tr: "trace (snd (auth_loop e n w2)) = trace w2 @ tr"
      "auth_protocol e (prompts w2) None tr" "length (filter is_session tr) \<le> n"
      "sessions (snd (auth_loop e n w2)) = sessions w2 + length (filter is_session tr)"
      "mails tr = []"
      by blast
    have "trace (snd (auth_loop e (Suc n) w)) = trace w @ (blk @ tr)"
      using eq tr(1) blk(1) by simp
    moreover have "auth_protocol e (prompts w) None (blk @ tr)" using blk(2) tr(2) by simp
    moreover have "length (filter is_session (blk @ tr)) \<le> Suc n" using blk(3) tr(3) by simp
    moreover have "sessions (snd (auth_loop e (Suc n) w))
                     = sessions w + length (filter is_session (blk @ tr))"
      using eq tr(4) blk(3,5) by simp
    moreover have "mails (blk @ tr) = []" using blk(4) tr(5) by simp
    ultimately show ?thesis by blast
  qed
qed

lemma auth_loop_mails: "mails (trace (snd (auth_loop e n w))) = mails (trace w)"
  using auth_loop_trace [of e n w] by auto

lemma resolve_password_sessions: "sessions (snd (resolve_password e w)) = sessions w"
  by (simp add: resolve_password_def emit_def Let_def split: option.splits)

lemma send_mail_test_rejects:
  "rejects (smtp e (sessions w)) \<Longrightarrow> fst (send_mail e mail pw True w) = Inr LoginError"
  by (simp add: rejects_def handshake_ok_def send_mail_def session_body_def Let_def)

lemma send_mail_test_accepts:
  "accepts (smtp e (sessions w)) \<Longrightarrow> fst (send_mail e mail pw True w) = Inr Success"
  by (simp add: accepts_def handshake_ok_def send_mail_def session_body_def Let_def)

lemma send_mail_test_breaks:
  "breaks (smtp e (sessions w)) \<Longrightarrow> fst (send_mail e mail pw True w) = Inr OtherError"
  by (auto simp: breaks_def handshake_ok_def send_mail_def session_body_def Let_def
      split: option.splits)

text \<open>A rejected login costs one session and leaves one iteration less.\<close>

lemma auth_loop_rejected_step:
  assumes "rejects (smtp e (sessions w))"
  shows "\<exists>w2. auth_loop e (Suc n) w = auth_loop e n w2 \<and> sessions w2 = Suc (sessions w)
           \<and> prompts w2 = (case environ_pass e of Some p \<Rightarrow> prompts w | None \<Rightarrow> Suc (prompts w))"
proof -
  obtain pw w1 where rp: "resolve_password e w = (pw, w1)" by (cases "resolve_password e w")
  have s1: "sessions w1 = sessions w" using resolve_password_sessions [of e w] rp by simp
  obtain r w2 where sm: "send_mail e Namespace pw True w1 = (r, w2)"
    by (cases "send_mail e Namespace pw True w1")
  have "r = Inr LoginError" using send_mail_test_rejects [of e w1 Namespace pw] assms s1 sm by simp
  moreover from one_attempt [OF rp sm]
  have "sessions w2 = Suc (sessions w)"
    "prompts w2 = (case environ_pass e of Some p \<Rightarrow> prompts w | None \<Rightarrow> Suc (prompts w))"
    by blast+
  ultimately show ?thesis using rp sm by (intro exI [of _ w2]) simp
qed

lemma auth_loop_rejections:
  assumes "\<forall>j<i. rejects (smtp e (sessions w + j))" and "i \<le> n"
  shows "\<exists>wi. auth_loop e n w = auth_loop e (n - i) wi \<and> sessions wi = sessions w + i
           \<and> prompts wi = (case environ_pass e of Some p \<Rightarrow> prompts w | None \<Rightarrow> prompts w + i)"
  using assms
proof (induction i arbitrary: w n)
  case 0
  show ?case by (intro exI [of _ w]) (simp split: option.splits)
next
  case (Suc i)
  then obtain n' where n: "n = Suc n'" by (cases n) auto
  from Suc.prems(1) have "rejects (smtp e (sessions w))" by (metis add_0_right zero_less_Suc)
  from auth_loop_rejected_step [OF this, of n'] obtain w2
    where w2: "auth_loop e (Suc n') w = auth_loop e n' w2" "sessions w2 = Suc (sessions w)"
      "prompts w2 = (case environ_pass e of Some p \<Rightarrow> prompts w | None \<Rightarrow> Suc (prompts w))"
    by blast
  have "\<forall>j<i. rejects (smtp e (sessions w2 + j))"
  proof (intro allI impI)
    fix j assume "j < i"
    then have "Suc j < Suc i" by simp
    with Suc.prems(1) have "rejects (smtp e (sessions w + Suc j))" by blast
    with w2(2) show "rejects (smtp e (sessions w2 + j))" by simp
  qed
  moreover have "i \<le> n'" using Suc.prems(2) n by simp
  ultimately obtain wi where wi: "auth_loop e n' w2 = auth_loop e (n' - i) wi"
    "sessions wi = sessions w2 + i"
    "prompts wi = (case environ_pass e of Some p \<Rightarrow> prompts w2 | None \<Rightarrow> prompts w2 + i)"
    using Suc.IH by blast
  have "prompts wi = (case environ_pass e of Some p \<Rightarrow> prompts w | None \<Rightarrow> prompts w + Suc i)"
    using wi(3) w2(3) by (simp split: option.splits)
  with w2 wi n show ?case by (intro exI [of _ wi]) simp
qed

lemma auth_loop_exhausted:
  assumes "\<forall>j<n. rejects (smtp e (sessions w + j))"
  shows "fst (auth_loop e n w) = Inr None \<and> sessions (snd (auth_loop e n w)) = sessions w + n"
  using auth_loop_rejections [OF assms, of n] by auto

lemma auth_loop_breaks:
  assumes "\<forall>j<i. rejects (smtp e (sessions w + j))" and "breaks (smtp e (sessions w + i))" and "i < n"
  shows "fst (auth_loop e n w) = Inl (SystemExit 0) \<and> sessions (snd (auth_loop e n w)) = sessions w + i + 1"
proof -
  from auth_loop_rejections [OF assms(1), of n] assms(3) obtain wi
    where wi: "auth_loop e n w = auth_loop e (n - i) wi" "sessions wi = sessions w + i" by auto
  from assms(3) obtain k where k: "n - i = Suc k" by (cases "n - i") auto
  obtain pw w1 where rp: "resolve_password e wi = (pw, w1)" by (cases "resolve_password e wi")
  have s1: "sessions w1 = sessions wi" using resolve_password_sessions [of e wi] rp by simp
  obtain r w2 where sm: "send_mail e Namespace pw True w1 = (r, w2)"
    by (cases "send_mail e Namespace pw True w1")
  have "r = Inr OtherError"
    using send_mail_test_breaks [of e w1 Namespace pw] assms(2) s1 wi(2) sm by simp
  moreover from one_attempt [OF rp sm] have "sessions w2 = Suc (sessions wi)" by blast
  ultimately show ?thesis using wi k rp sm by simp
qed

lemma auth_loop_accepts:
  assumes "\<forall>j<i. rejects (smtp e (sessions w + j))" and "accepts (smtp e (sessions w + i))" and "i < n"
  shows "fst (auth_loop e n w) = Inr (Some (resolved e (prompts w) i))
       \<and> sessions (snd (auth_loop e n w)) = sessions w + i + 1"
proof -
  from auth_loop_rejections [OF assms(1), of n] assms(3) obtain wi
    where wi: "auth_loop e n w = auth_loop e (n - i) wi" "sessions wi = sessions w + i"
      "prompts wi = (case environ_pass e of Some p \<Rightarrow> prompts w | None \<Rightarrow> prompts w + i)"
    by auto
  from assms(3) obtain k where k: "n - i = Suc k" by (cases "n - i") auto
  obtain pw w1 where rp: "resolve_password e wi = (pw, w1)" by (cases "resolve_password e wi")
  have s1: "sessions w1 = sessions wi" using resolve_password_sessions [of e wi] rp by simp
  obtain r w2 where sm: "send_mail e Namespace pw True w1 = (r, w2)"
    by (cases "send_mail e Namespace pw True w1")
  have "r = Inr Success"
    using send_mail_test_accepts [of e w1 Namespace pw] assms(2) s1 wi(2) sm by simp
  moreover from one_attempt [OF rp sm]
  have "sessions w2 = Suc (sessions wi)" "pw = resolved e (prompts wi) 0" by blast+
  moreover have "resolved e (prompts wi) 0 = resolved e (prompts w) i"
    using wi(3) by (simp add: resolved_def split: option.splits)
  ultimately show ?thesis using wi k rp sm by simp
qed

text \<open>
  Claim C3. With the settings readable, the loop of \<open>notify\<close> opens at most 3 sessions.
  Its trace keeps the discipline of \<open>auth_protocol\<close>: before each session the variable is
  looked up, the prompt is used exactly when the variable is unset, and the session is
  test-only with the password so obtained; nothing is transmitted. A rejected login is
  followed by the next attempt; a login failing otherwise at attempt \<open>i\<close> ends the run with
  \<open>exit(0)\<close> after \<open>i + 1\<close> sessions; three rejected logins end it with the printed line
  and the logged warning after 3 sessions; an accepted login after \<open>i\<close> rejected ones ends
  the loop after \<open>i + 1\<close> sessions with the password of the \<open>i\<close>-th resolution.
\<close>

theorem authentication_bounded:
  assumes "read_settings w = Inr cfg"
  shows "(\<exists>tr. trace (snd (auth_loop e 3 w)) = trace w @ tr
              \<and> auth_protocol e (prompts w) None tr
              \<and> length (filter is_session tr) \<le> 3
              \<and> sessions (snd (auth_loop e 3 w)) = sessions w + length (filter is_session tr)
              \<and> mails tr = [])
       \<and> (\<forall>i<3. (\<forall>j<i. rejects (smtp e (sessions w + j))) \<and> breaks (smtp e (sessions w + i)) \<longrightarrow>
             notify e a w = Some (Inl (SystemExit 0), snd (auth_loop e 3 w))
             \<and> sessions (snd (auth_loop e 3 w)) = sessions w + i + 1)
       \<and> ((\<forall>j<3. rejects (smtp e (sessions w + j))) \<longrightarrow>
             notify e a w =
               Some (Inl (SystemExit 0),
                     emit (Log WARNING ''The username/password combination was failed too much time'')
                       (emit (Printed ''You failed your password too much times'')
                         (snd (auth_loop e 3 w))))
             \<and> sessions (snd (auth_loop e 3 w)) = sessions w + 3)
       \<and> (\<forall>i<3. (\<forall>j<i. rejects (smtp e (sessions w + j))) \<and> accepts (smtp e (sessions w + i)) \<longrightarrow>
             fst (auth_loop e 3 w) = Inr (Some (resolved e (prompts w) i))
             \<and> sessions (snd (auth_loop e 3 w)) = sessions w + i + 1)"
proof -
  obtain srv prt sndr where cfg: "cfg = (srv, prt, sndr)" by (cases cfg) auto
  obtain r1 w1 where al: "auth_loop e 3 w = (r1, w1)" by (cases "auth_loop e 3 w")
  have A: "\<exists>tr. trace (snd (auth_loop e 3 w)) = trace w @ tr
              \<and> auth_protocol e (prompts w) None tr
              \<and> length (filter is_session tr) \<le> 3
              \<and> sessions (snd (auth_loop e 3 w)) = sessions w + length (filter is_session tr)
              \<and> mails tr = []"
    by (rule auth_loop_trace)
  have B: "notify e a w = Some (Inl (SystemExit 0), snd (auth_loop e 3 w))
             \<and> sessions (snd (auth_loop e 3 w)) = sessions w + i + 1"
    if "i < 3" "\<forall>j<i. rejects (smtp e (sessions w + j))" "breaks (smtp e (sessions w + i))" for i
  proof -
    from auth_loop_breaks [OF that(2,3,1)] al
    have "r1 = Inl (SystemExit 0)" "sessions w1 = sessions w + i + 1" by simp_all
    with al assms cfg show ?thesis by (simp add: notify_def)
  qed
  have C: "notify e a w =
               Some (Inl (SystemExit 0),
                     emit (Log WARNING ''The username/password combination was failed too much time'')
                       (emit (Printed ''You failed your password too much times'')
                         (snd (auth_loop e 3 w))))
             \<and> sessions (snd (auth_loop e 3 w)) = sessions w + 3"
    if "\<forall>j<3. rejects (smtp e (sessions w + j))"
  proof -
    from auth_loop_exhausted [OF that] al
    have "r1 = Inr None" "sessions w1 = sessions w + 3" by simp_all
    with al assms cfg show ?thesis by (simp add: notify_def)
  qed
  have D: "fst (auth_loop e 3 w) = Inr (Some (resolved e (prompts w) i))
             \<and> sessions (snd (auth_loop e 3 w)) = sessions w + i + 1"
    if "i < 3" "\<forall>j<i. rejects (smtp e (sessions w + j))" "accepts (smtp e (sessions w + i))" for i
    using auth_loop_accepts [OF that(2,3,1)] .
  from A B C D show ?thesis by blast
qed

lemma ready_settings:
  "read_settings ready_world = Inr (''old.example.org'', ''587'', ''me@example.org'')"
  by (simp add: read_settings_def ready_world_def set_conf_def initial_world_def getitem2_def
      smtp_store_def)

theorem authentication_bounded_witness:
  "map_option fst (notify rejecting_env base_args ready_world) = Some (Inl (SystemExit 0))
   \<and> sessions (snd (auth_loop rejecting_env 3 ready_world)) = 3
   \<and> map_option fst (notify broken_env base_args ready_world) = Some (Inl (SystemExit 0))
   \<and> sessions (snd (auth_loop broken_env 3 ready_world)) = 1
   \<and> fst (auth_loop retry_env 3 ready_world) = Inr (Some ''right'')
   \<and> sessions (snd (auth_loop retry_env 3 ready_world)) = 3
   \<and> fst (auth_loop base_env 3 ready_world) = Inr (Some ''secret'')
   \<and> sessions (snd (auth_loop base_env 3 ready_world)) = 1"
proof -
  note T = authentication_bounded [OF ready_settings]
  note ev = rejects_def accepts_def breaks_def handshake_ok_def ok_session_def base_env_def
  have s0: "sessions ready_world = 0" "prompts ready_world = 0"
    by (simp_all add: ready_world_def set_conf_def initial_world_def)
  have rj: "\<forall>j<3. rejects (smtp rejecting_env (sessions ready_world + j))"
    by (simp add: rejecting_env_def ev)
  have br: "(0::nat) < 3 \<and> (\<forall>j<0. rejects (smtp broken_env (sessions ready_world + j)))
            \<and> breaks (smtp broken_env (sessions ready_world + 0))"
    by (simp add: broken_env_def ev)
  have rt: "(2::nat) < 3 \<and> (\<forall>j<2. rejects (smtp retry_env (sessions ready_world + j)))
            \<and> accepts (smtp retry_env (sessions ready_world + 2))"
    by (simp add: retry_env_def ev s0)
  have ba: "(0::nat) < 3 \<and> (\<forall>j<0. rejects (smtp base_env (sessions ready_world + j)))
            \<and> accepts (smtp base_env (sessions ready_world + 0))"
    by (simp add: ev)
  have p2: "resolved retry_env (prompts ready_world) 2 = ''right''"
    by (simp add: resolved_def retry_env_def s0)
  have p0: "resolved base_env (prompts ready_world) 0 = ''secret''"
    by (simp add: resolved_def base_env_def)
  from T [of rejecting_env base_args] rj s0
  have 1: "map_option fst (notify rejecting_env base_args ready_world) = Some (Inl (SystemExit 0))"
          "sessions (snd (auth_loop rejecting_env 3 ready_world)) = 3"
    by simp_all
  from T [of broken_env base_args] br
  have "notify broken_env base_args ready_world
          = Some (Inl (SystemExit 0), snd (auth_loop broken_env 3 ready_world))
        \<and> sessions (snd (auth_loop broken_env 3 ready_world)) = sessions ready_world + 0 + 1"
    by blast
  with s0 have 2: "map_option fst (notify broken_env base_args ready_world) = Some (Inl (SystemExit 0))"
          "sessions (snd (auth_loop broken_env 3 ready_world)) = 1"
    by simp_all
  from T [of retry_env base_args] rt
  have "fst (auth_loop retry_env 3 ready_world) = Inr (Some (resolved retry_env (prompts ready_world) 2))
        \<and> sessions (snd (auth_loop retry_env 3 ready_world)) = sessions ready_world + 2 + 1"
    by blast
  with s0 p2 have 3: "fst (auth_loop retry_env 3 ready_world) = Inr (Some ''right'')"
          "sessions (snd (auth_loop retry_env 3 ready_world)) = 3"
    by simp_all
  from T [of base_env base_args] ba
  have "fst (auth_loop base_env 3 ready_world) = Inr (Some (resolved base_env (prompts ready_world) 0))
        \<and> sessions (snd (auth_loop base_env 3 ready_world)) = sessions ready_world + 0 + 1"
    by blast
  with s0 p0 have 4: "fst (auth_loop base_env 3 ready_world) = Inr (Some ''secret'')"
          "sessions (snd (auth_loop base_env 3 ready_world)) = 1"
    by simp_all
  from 1 2 3 4 show ?thesis by (intro conjI)
qed

subsection \<open>The notification mails\<close>

lemma mails_emit_Log [simp]: "mails (trace (emit (Log l s) w)) = mails (trace w)"
  by (simp add: emit_def)

lemma attach_files_keeps:
  "attach_files e fs m w = (Inr m', w') \<Longrightarrow> body m' = body m \<and> Subject m' = Subject m"
  by (induction e fs m w rule: attach_files.induct)
     (auto split: if_splits prod.splits sum.splits option.splits)

lemma attach_paths_keeps:
  "attach_paths e ps m w = (Inr m', w') \<Longrightarrow> body m' = body m \<and> Subject m' = Subject m"
  by (induction e ps m w rule: attach_paths.induct)
     (auto split: prod.splits sum.splits dest: attach_files_keeps)

lemma resolve_mime_mails: "resolve_mime e f w = (r, w1) \<Longrightarrow> mails (trace w1) = mails (trace w)"
  by (auto simp: resolve_mime_def Let_def split: prod.splits option.splits list.splits)

lemma attach_files_mails: "attach_files e fs m w = (r, w') \<Longrightarrow> mails (trace w') = mails (trace w)"
proof (induction e fs m w arbitrary: r w' rule: attach_files.induct)
  case (1 e m w)
  then show ?case by simp
next
  case (2 e f fs m w)
  show ?case
  proof (cases "isfile e f")
    case False
    with 2(1) [OF False] 2(3) show ?thesis by auto
  next
    case True
    obtain r1 w1 where r: "resolve_mime e f w = (r1, w1)" by (cases "resolve_mime e f w")
    note s = resolve_mime_mails [OF r]
    show ?thesis
    proof (cases r1)
      case (Inl x)
      with True r s 2(3) show ?thesis by auto
    next
      case (Inr ms)
      obtain mt st where ms: "ms = (mt, st)" by (cases ms)
      show ?thesis
      proof (cases "read_bytes e f")
        case None
        with True r s Inr ms 2(3) show ?thesis by auto
      next
        case (Some data)
        have "attach_files e fs
                (m\<lparr>parts := parts m @ [\<lparr>content = data, maintype = mt, subtype = st, filename = basename f\<rparr>]\<rparr>)
                (emit (Log DEBUG (''Successfully attached the file '' @ f)) w1) = (r, w')"
          using 2(3) True r Inr ms Some by simp
        from 2(2) [OF _ _ _ _ Some this] True r Inr ms
        have "mails (trace w') = mails (trace (emit (Log DEBUG (''Successfully attached the file '' @ f)) w1))"
          by simp
        with s show ?thesis by simp
      qed
    qed
  qed
qed

lemma attach_paths_mails: "attach_paths e ps m w = (r, w') \<Longrightarrow> mails (trace w') = mails (trace w)"
proof (induction e ps m w arbitrary: r w' rule: attach_paths.induct)
  case (1 e m w)
  then show ?case by simp
next
  case (2 e p ps m w)
  obtain r1 w1 where r: "attach_files e (iglob e p) m w = (r1, w1)"
    by (cases "attach_files e (iglob e p) m w")
  note s = attach_files_mails [OF r]
  show ?case
  proof (cases r1)
    case (Inl x)
    with r s 2(2) show ?thesis by auto
  next
    case (Inr m1)
    have "attach_paths e ps m1 w1 = (r, w')" using 2(2) r Inr by simp
    from 2(1) [OF _ _ this] r Inr s show ?thesis by auto
  qed
qed

lemma resolve_to_mails: "resolve_to a w = (r, w1) \<Longrightarrow> mails (trace w1) = mails (trace w)"
  by (auto simp: resolve_to_def split: option.splits sum.splits)

lemma format_mail_result:
  assumes "format_mail e a sender subject text w = (r, w')"
  shows "mails (trace w') = mails (trace w)
       \<and> (\<forall>m. r = Inr m \<longrightarrow> body m = text \<and> Subject m = subject)"
proof -
  let ?w = "emit (Log DEBUG (''Changed the email header From to '' @ sender)) w"
  obtain r1 w1 where rt: "resolve_to a ?w = (r1, w1)" by (cases "resolve_to a ?w")
  have m1: "mails (trace w1) = mails (trace w)" using resolve_to_mails [OF rt] by simp
  show ?thesis
  proof (cases r1)
    case (Inl x)
    with assms rt m1 show ?thesis by (auto simp: format_mail_def Let_def)
  next
    case (Inr rcpt)
    let ?m0 = "\<lparr>Subject = subject, From = sender, To = rcpt, body = text, parts = []\<rparr>"
    let ?w2 = "emit (Log DEBUG (''Changed the email header To to '' @ rcpt)) w1"
    show ?thesis
    proof (cases "attachments a")
      case None
      with assms rt Inr m1 show ?thesis by (auto simp: format_mail_def Let_def)
    next
      case (Some s)
      with assms rt Inr have ap: "attach_paths e (iter_str s) ?m0 ?w2 = (r, w')"
        by (simp add: format_mail_def Let_def)
      from attach_paths_mails [OF ap] m1 have "mails (trace w') = mails (trace w)" by simp
      moreover have "\<forall>m. r = Inr m \<longrightarrow> body m = text \<and> Subject m = subject"
        using attach_paths_keeps [of e "iter_str s" ?m0 ?w2 _ w'] ap by auto
      ultimately show ?thesis by simp
    qed
  qed
qed

lemma session_body_mails:
  "session_body s (Message m) t w = (r, w') \<Longrightarrow>
     mails (trace w') = mails (trace w) \<or> mails (trace w') = mails (trace w) @ [m]"
  by (auto simp: session_body_def emit_def Let_def split: option.splits if_splits)

lemma send_mail_mails:
  assumes "send_mail e (Message m) pw t w = (r, w')"
  shows "mails (trace w') = mails (trace w) \<or> mails (trace w') = mails (trace w) @ [m]"
proof (cases "connect_exn (smtp e (sessions w))")
  case (Some x)
  with assms show ?thesis by (auto simp: send_mail_def emit_def Let_def)
next
  case None
  let ?w = "emit (Session t pw) (w\<lparr>sessions := Suc (sessions w)\<rparr>)"
  obtain r1 w1 where sb: "session_body (smtp e (sessions w)) (Message m) t ?w = (r1, w1)"
    by (cases "session_body (smtp e (sessions w)) (Message m) t ?w")
  from assms None sb have "w' = w1"
    by (auto simp: send_mail_def Let_def split: option.splits)
  with session_body_mails [OF sb] show ?thesis by (simp add: emit_def)
qed

lemma creation_time_text_frame:
  assumes "creation_time_text e p w = (created, w0)"
  shows "trace w0 = trace w" and "sessions w0 = sessions w" and "notify_conf w0 = notify_conf w"
    and "\<forall>t. proc_create_time p = Some t \<longrightarrow> created = strftime e t"
    and "proc_create_time p = None \<longrightarrow> created = strftime e (now e (clock_reads w))"
  using assms by (auto simp: creation_time_text_def split: option.splits)

text \<open>
  Every mail of the loop carries the subject, the name and the command line of one of
  the processes handed to it, and the cached creation time when there is one.
\<close>

lemma notify_ended_mails:
  "notify_ended e a sender pw ps w = (r, w') \<Longrightarrow>
     \<exists>ms. mails (trace w') = mails (trace w) @ ms
        \<and> (\<forall>m \<in> set ms. \<exists>p \<in> set ps. \<exists>created.
              Subject m = mail_subject p
              \<and> body m = mail_body (proc_name p) created (proc_cmdline p)
              \<and> (\<forall>t. proc_create_time p = Some t \<longrightarrow> created = strftime e t))"
proof (induction ps arbitrary: w)
  case Nil
  then show ?case by simp
next
  case (Cons p ps)
  obtain created w0 where ct: "creation_time_text e p w = (created, w0)"
    by (cases "creation_time_text e p w")
  note fr = creation_time_text_frame [OF ct]
  let ?text = "mail_body (proc_name p) created (proc_cmdline p)"
  obtain r1 w1 where fm: "format_mail e a sender (mail_subject p) ?text w0 = (r1, w1)"
    by (cases "format_mail e a sender (mail_subject p) ?text w0")
  from format_mail_result [OF fm] fr(1)
  have f1: "mails (trace w1) = mails (trace w)"
    and f2: "\<And>m. r1 = Inr m \<Longrightarrow> body m = ?text \<and> Subject m = mail_subject p"
    by simp_all
  show ?case
  proof (cases r1)
    case (Inl x)
    with Cons.prems ct fm have "w' = w1" by simp
    with f1 show ?thesis by (intro exI [of _ "[]"]) simp
  next
    case (Inr m)
    from f2 [OF Inr] have bm: "body m = ?text" "Subject m = mail_subject p" by blast+
    have good: "\<exists>q \<in> set (p # ps). \<exists>c. Subject m = mail_subject q
                  \<and> body m = mail_body (proc_name q) c (proc_cmdline q)
                  \<and> (\<forall>t. proc_create_time q = Some t \<longrightarrow> c = strftime e t)"
      using bm fr(4) by (intro bexI [of _ p] exI [of _ created]) simp_all
    obtain r2 w2 where sm: "send_mail e (Message m) pw False w1 = (r2, w2)"
      by (cases "send_mail e (Message m) pw False w1")
    from send_mail_mails [OF sm] f1
    have "mails (trace w2) = mails (trace w) @ [] \<or> mails (trace w2) = mails (trace w) @ [m]"
      by simp
    then obtain ms1 where ms1: "mails (trace w2) = mails (trace w) @ ms1" "set ms1 \<subseteq> {m}"
      by (elim disjE) (rule that [of "[]"], simp, simp, rule that [of "[m]"], simp, simp)
    have g1: "\<forall>m' \<in> set ms1. \<exists>q \<in> set (p # ps). \<exists>c. Subject m' = mail_subject q
                  \<and> body m' = mail_body (proc_name q) c (proc_cmdline q)
                  \<and> (\<forall>t. proc_create_time q = Some t \<longrightarrow> c = strftime e t)"
      using ms1(2) good by blast
    show ?thesis
    proof (cases r2)
      case (Inl x)
      with Cons.prems ct fm Inr sm have "w' = w2" by simp
      with ms1(1) g1 show ?thesis by (intro exI [of _ ms1]) simp
    next
      case r2: (Inr v)
      with Cons.prems ct fm Inr sm have "notify_ended e a sender pw ps w2 = (r, w')" by simp
      from Cons.IH [OF this] obtain ms2 where ms2: "mails (trace w') = mails (trace w2) @ ms2"
        "\<forall>m \<in> set ms2. \<exists>p \<in> set ps. \<exists>created. Subject m = mail_subject p
              \<and> body m = mail_body (proc_name p) created (proc_cmdline p)
              \<and> (\<forall>t. proc_create_time p = Some t \<longrightarrow> created = strftime e t)"
        by blast
      have g2: "\<forall>m' \<in> set ms2. \<exists>q \<in> set (p # ps). \<exists>c. Subject m' = mail_subject q
                  \<and> body m' = mail_body (proc_name q) c (proc_cmdline q)
                  \<and> (\<forall>t. proc_create_time q = Some t \<longrightarrow> c = strftime e t)"
        using ms2(2) by (meson list.set_intros(2))
      have "\<forall>m' \<in> set (ms1 @ ms2). \<exists>q \<in> set (p # ps). \<exists>c. Subject m' = mail_subject q
                  \<and> body m' = mail_body (proc_name q) c (proc_cmdline q)
                  \<and> (\<forall>t. proc_create_time q = Some t \<longrightarrow> c = strftime e t)"
        using g1 g2 by (simp add: ball_Un)
      moreover have "mails (trace w') = mails (trace w) @ (ms1 @ ms2)" using ms1(1) ms2(1) by simp
      ultimately show ?thesis by (intro exI [of _ "ms1 @ ms2"]) simp
    qed
  qed
qed

text \<open>
  What holds of every mail \<open>notify\<close> transmits, whatever the process table holds after
  instant 0: the subject names the pid, the name and the command line are those found
  at instant 0, and so is the creation time when the constructor has stored it.
\<close>

lemma notify_mails:
  assumes "notify e a w = Some (r, w')" and "ptable e 0 (pid a) = Some i"
  shows "\<exists>ms. mails (trace w') = mails (trace w) @ ms
           \<and> (\<forall>m \<in> set ms. \<exists>created.
                 Subject m = ''The process with pid : '' @ str_int (pid a) @ '' has ended''
                 \<and> body m = mail_body (pname i) created (join '' '' (cmdline i))
                 \<and> (init_caches_create_time e \<longrightarrow> created = strftime e (create_time i)))"
proof (cases "read_settings w")
  case (Inl x)
  with assms(1) have "w' = w" by (simp add: notify_def)
  then show ?thesis by (intro exI [of _ "[]"]) simp
next
  case (Inr cfg)
  obtain srv prt sndr where cfg: "cfg = (srv, prt, sndr)" by (cases cfg) auto
  obtain r1 w1 where al: "auth_loop e 3 w = (r1, w1)" by (cases "auth_loop e 3 w")
  have m1: "mails (trace w1) = mails (trace w)" using auth_loop_mails [of e 3 w] al by simp
  note unf = notify_def Inr cfg al
  let ?p = "snapshot e (pid a) i"
  show ?thesis
  proof (cases r1)
    case (Inl x)
    with assms(1) have "w' = w1" by (simp add: unf)
    with m1 show ?thesis by (intro exI [of _ "[]"]) simp
  next
    case r1: (Inr po)
    show ?thesis
    proof (cases po)
      case None
      with assms(1) r1 have "mails (trace w') = mails (trace w1)"
        by (auto simp add: unf emit_def)
      with m1 show ?thesis by (intro exI [of _ "[]"]) simp
    next
      case (Some pw)
      show ?thesis
      proof (cases "fork e")
        case (Parent ch)
        with assms(1) r1 Some have "w' = w1" by (simp add: unf)
        with m1 show ?thesis by (intro exI [of _ "[]"]) simp
      next
        case Child
        show ?thesis
        proof (cases "wait_loop e 0 [?p]")
          case None
          then have "wait_process e a = None" using assms(2) by (simp add: wait_process_def)
          with assms(1) r1 Some Child show ?thesis by (simp add: unf)
        next
          case bs: (Some batches)
          then have wp: "wait_process e a = Some (Inr batches)"
            using assms(2) by (simp add: wait_process_def)
          obtain r2 w2 where ne: "notify_ended e a sndr pw (concat batches) w1 = (r2, w2)"
            by (cases "notify_ended e a sndr pw (concat batches) w1")
          have w': "w' = w2"
            using assms(1) r1 Some Child wp ne by (cases r2) (simp_all add: unf)
          from wait_loop_yields_watched [OF bs]
          have sub: "set (concat batches) \<subseteq> {?p}" by simp
          from notify_ended_mails [OF ne] obtain ms where
            ms: "mails (trace w2) = mails (trace w1) @ ms"
                "\<forall>m \<in> set ms. \<exists>p \<in> set (concat batches). \<exists>created.
                    Subject m = mail_subject p
                    \<and> body m = mail_body (proc_name p) created (proc_cmdline p)
                    \<and> (\<forall>t. proc_create_time p = Some t \<longrightarrow> created = strftime e t)"
            by blast
          have one: "\<forall>m \<in> set ms. \<exists>created.
                    Subject m = mail_subject ?p
                    \<and> body m = mail_body (proc_name ?p) created (proc_cmdline ?p)
                    \<and> (\<forall>t. proc_create_time ?p = Some t \<longrightarrow> created = strftime e t)"
            using ms(2) sub by blast
          have "\<forall>m \<in> set ms. \<exists>created.
                 Subject m = ''The process with pid : '' @ str_int (pid a) @ '' has ended''
                 \<and> body m = mail_body (pname i) created (join '' '' (cmdline i))
                 \<and> (init_caches_create_time e \<longrightarrow> created = strftime e (create_time i))"
          proof (intro ballI)
            fix m assume "m \<in> set ms"
            with one obtain created where
              A: "Subject m = mail_subject ?p"
                 "body m = mail_body (proc_name ?p) created (proc_cmdline ?p)"
                 "\<forall>t. proc_create_time ?p = Some t \<longrightarrow> created = strftime e t"
              by blast
            from A(3) have "init_caches_create_time e \<longrightarrow> created = strftime e (create_time i)"
              by (simp add: snapshot_def)
            moreover from A(1) have "Subject m = ''The process with pid : '' @ str_int (pid a) @ '' has ended''"
              by (simp add: snapshot_def mail_subject_def)
            moreover from A(2) have "body m = mail_body (pname i) created (join '' '' (cmdline i))"
              by (simp add: snapshot_def)
            ultimately show "\<exists>created.
                 Subject m = ''The process with pid : '' @ str_int (pid a) @ '' has ended''
                 \<and> body m = mail_body (pname i) created (join '' '' (cmdline i))
                 \<and> (init_caches_create_time e \<longrightarrow> created = strftime e (create_time i))"
              by blast
          qed
          with ms(1) m1 w' show ?thesis by (intro exI [of _ ms]) simp
        qed
      qed
    qed
  qed
qed

text \<open>A run on the sample machine: the variable is set, the server accepts.\<close>

lemma auth_loop_env_accepts:
  assumes "environ_pass e = Some pw" and "smtp e (sessions w) = ok_session"
  shows "auth_loop e 3 w =
           (Inr (Some pw),
            w\<lparr>sessions := Suc (sessions w),
              trace := trace w @ [GetEnv (Some pw), Session True pw,
                                 Log DEBUG ''Initiating ehlo for the tls handshake'',
                                 Log DEBUG ''Ended ehlo for the tls handshake'']\<rparr>)"
  using assms
  by (simp add: numeral_3_eq_3 resolve_password_def send_mail_def session_body_def emit_def
      Let_def ok_session_def)

lemma format_mail_default:
  assumes "notify_conf w = Some smtp_store"
  shows "format_mail e base_args sender subject text w =
     (Inr \<lparr>Subject = subject, From = sender, To = ''you@example.org'', body = text, parts = []\<rparr>,
      emit (Log DEBUG ''Changed the email header To to you@example.org'')
        (emit (Log INFO ''E-mail header To was not fed to cmd, defaulting to you@example.org'')
          (emit (Log DEBUG (''Changed the email header From to '' @ sender)) w)))"
  using assms
  by (simp add: format_mail_def resolve_to_def getitem2_def smtp_store_def base_args_def Let_def
      emit_def)

lemma send_mail_live_ok:
  assumes "smtp e (sessions w) = ok_session"
  shows "fst (send_mail e (Message m) pw False w) = Inr Success"
    and "mails (trace (snd (send_mail e (Message m) pw False w))) = mails (trace w) @ [m]"
  using assms by (simp_all add: send_mail_def session_body_def ok_session_def emit_def Let_def)

lemma notify_ended_single:
  assumes "smtp e (sessions w) = ok_session" and "notify_conf w = Some smtp_store"
    and "creation_time_text e p w = (created, w0)"
  shows "\<exists>w2. notify_ended e base_args sender pw [p] w = (Inr (), w2)
           \<and> map body (mails (trace w2))
               = map body (mails (trace w)) @ [mail_body (proc_name p) created (proc_cmdline p)]"
proof -
  note fr = creation_time_text_frame [OF assms(3)]
  let ?text = "mail_body (proc_name p) created (proc_cmdline p)"
  let ?m = "\<lparr>Subject = mail_subject p, From = sender, To = ''you@example.org'',
             body = ?text, parts = []\<rparr>"
  let ?wf = "emit (Log DEBUG ''Changed the email header To to you@example.org'')
        (emit (Log INFO ''E-mail header To was not fed to cmd, defaulting to you@example.org'')
          (emit (Log DEBUG (''Changed the email header From to '' @ sender)) w0))"
  have c0: "notify_conf w0 = Some smtp_store" using assms(2) fr(3) by simp
  have s: "smtp e (sessions ?wf) = ok_session" using assms(1) fr(2) by (simp add: emit_def)
  obtain r2 w2 where sm: "send_mail e (Message ?m) pw False ?wf = (r2, w2)"
    by (cases "send_mail e (Message ?m) pw False ?wf")
  from send_mail_live_ok [OF s, of ?m pw] sm
  have r2: "r2 = Inr Success" and mm: "mails (trace w2) = mails (trace ?wf) @ [?m]" by simp_all
  have "mails (trace ?wf) = mails (trace w)" using fr(1) by (simp add: emit_def)
  with mm have "map body (mails (trace w2)) = map body (mails (trace w)) @ [?text]" by simp
  moreover have "notify_ended e base_args sender pw [p] w = (Inr (), w2)"
    by (simp only: notify_ended.simps assms(3) format_mail_default [OF c0] sm r2 prod.case
        sum.case)
  ultimately show ?thesis by blast
qed

lemma sample_run:
  assumes "environ_pass e = Some pw" and "\<And>n. smtp e n = ok_session" and "fork e = Child"
    and "ptable e = ptable exit2_env"
  shows "map_option (\<lambda>r. map body (mails (trace (snd r)))) (notify e base_args ready_world)
           = Some [mail_body ''sleep''
                     (if init_caches_create_time e then strftime e 1700000000
                      else strftime e (now e 0))
                     ''sleep 2'']"
proof -
  let ?p = "snapshot e 4242 sleep_info"
  let ?w1 = "ready_world\<lparr>sessions := Suc (sessions ready_world),
              trace := trace ready_world @ [GetEnv (Some pw), Session True pw,
                                 Log DEBUG ''Initiating ehlo for the tls handshake'',
                                 Log DEBUG ''Ended ehlo for the tls handshake'']\<rparr>"
  have al: "auth_loop e 3 ready_world = (Inr (Some pw), ?w1)"
    by (rule auth_loop_env_accepts [OF assms(1) assms(2)])
  have wp: "wait_process e base_args = Some (Inr [[], [?p]])"
    by (rule exit2_table_wait_process [OF assms(4)])
  have c: "concat [[], [?p]] = [?p]" by simp
  obtain created w0 where ct: "creation_time_text e ?p ?w1 = (created, w0)"
    by (cases "creation_time_text e ?p ?w1")
  have cr: "created = (if init_caches_create_time e then strftime e 1700000000
                      else strftime e (now e 0))"
    using ct
    by (auto simp: creation_time_text_def snapshot_def sleep_info_def ready_world_def
        set_conf_def initial_world_def split: if_splits)
  have pn: "proc_name ?p = ''sleep''" "proc_cmdline ?p = ''sleep 2''"
    by (simp_all add: snapshot_def sleep_info_def)
  have nc: "notify_conf ?w1 = Some smtp_store"
    by (simp add: ready_world_def set_conf_def initial_world_def)
  have m0: "mails (trace ?w1) = []"
    by (simp add: ready_world_def set_conf_def initial_world_def)
  from notify_ended_single [OF assms(2) nc ct, of "''me@example.org''" pw]
  obtain w2 where ne: "notify_ended e base_args ''me@example.org'' pw [?p] ?w1 = (Inr (), w2)"
    and bd: "map body (mails (trace w2))
               = map body (mails (trace ?w1)) @ [mail_body (proc_name ?p) created (proc_cmdline ?p)]"
    by blast
  have n: "notify e base_args ready_world = Some (Inr None, w2)"
    by (simp only: notify_def ready_settings al wp assms(3) ne c
        prod.case sum.case option.case fork_result.case)
  from bd m0 pn cr have "map body (mails (trace w2))
      = [mail_body ''sleep'' (if init_caches_create_time e then strftime e 1700000000
                      else strftime e (now e 0)) ''sleep 2'']"
    by simp
  with n show ?thesis by simp
qed

text \<open>
  Claim C4. The claim: the body carries the name, creation time and command line
  captured at watch start. The code with a psutil whose constructor leaves
  \<open>_create_time\<close> unset, watching a process created at 1700000000 that exits two polls
  later, the clock showing 1700000120 when the mail is built: the name and the command
  line in the body are those of the start, the creation time line is the clock reading.
  With a psutil that stores the creation time the same run gives 1700000000.
\<close>

theorem creation_time_not_captured:
  "map_option create_time (ptable uncached_env 0 (pid base_args)) = Some 1700000000
   \<and> map_option (\<lambda>r. map body (mails (trace (snd r)))) (notify uncached_env base_args ready_world)
       = Some [mail_body ''sleep'' ''1700000120'' ''sleep 2'']
   \<and> map_option (\<lambda>r. map body (mails (trace (snd r)))) (notify exit2_env base_args ready_world)
       = Some [mail_body ''sleep'' ''1700000000'' ''sleep 2'']"
proof -
  have t0: "map_option create_time (ptable uncached_env 0 (pid base_args)) = Some 1700000000"
    by (simp add: uncached_env_def exit2_env_def base_args_def sleep_info_def)
  have u: "environ_pass uncached_env = Some ''secret''" "\<And>n. smtp uncached_env n = ok_session"
    "fork uncached_env = Child" "ptable uncached_env = ptable exit2_env"
    "\<not> init_caches_create_time uncached_env"
    "strftime uncached_env (now uncached_env 0) = ''1700000120''"
    by (simp_all add: uncached_env_def exit2_env_def base_env_def digit_char_def)
  have c: "environ_pass exit2_env = Some ''secret''" "\<And>n. smtp exit2_env n = ok_session"
    "fork exit2_env = Child" "init_caches_create_time exit2_env"
    "strftime exit2_env 1700000000 = ''1700000000''"
    by (simp_all add: exit2_env_def base_env_def digit_char_def)
  from sample_run [OF u(1) u(2) u(3) u(4)] u(5) u(6)
  have 1: "map_option (\<lambda>r. map body (mails (trace (snd r)))) (notify uncached_env base_args ready_world)
       = Some [mail_body ''sleep'' ''1700000120'' ''sleep 2'']"
    by simp
  from sample_run [OF c(1) c(2) c(3) refl] c(4) c(5)
  have 2: "map_option (\<lambda>r. map body (mails (trace (snd r)))) (notify exit2_env base_args ready_world)
       = Some [mail_body ''sleep'' ''1700000000'' ''sleep 2'']"
    by simp
  from t0 1 2 show ?thesis by (intro conjI)
qed

end
